theory Spec2Isabelle
  imports Main
begin

section \<open>JavaScript strings\<close>

text \<open>
  Strings are lists of characters; a character stands for one code unit below 256.
  Only the string operations that \<^verbatim>\<open>secrets-loader.ts\<close> and \<^verbatim>\<open>cli.ts\<close> call are
  modelled, each with the result JavaScript gives on such strings.
\<close>

definition isWhiteSpace :: "char \<Rightarrow> bool" where
  \<comment> \<open>the white space and line terminators that \<^verbatim>\<open>String.prototype.trim\<close> removes\<close>
  "isWhiteSpace c \<longleftrightarrow>
     c \<in> set [CHR 0x09, CHR 0x0A, CHR 0x0B, CHR 0x0C, CHR 0x0D, CHR 0x20, CHR 0xA0]"

definition trim :: "string \<Rightarrow> string" where
  "trim s = rev (dropWhile isWhiteSpace (rev (dropWhile isWhiteSpace s)))"

definition toLowerChar :: "char \<Rightarrow> char" where
  "toLowerChar c =
     (let n = (of_char c :: nat)
      in if (65 \<le> n \<and> n \<le> 90) \<or> (192 \<le> n \<and> n \<le> 214) \<or> (216 \<le> n \<and> n \<le> 222)
         then char_of (n + 32) else c)"

definition toLowerCase :: "string \<Rightarrow> string" where
  "toLowerCase s = map toLowerChar s"

fun startsWith :: "string \<Rightarrow> string \<Rightarrow> bool" where
  "startsWith s [] = True"
| "startsWith [] (p # ps) = False"
| "startsWith (c # cs) (p # ps) = (c = p \<and> startsWith cs ps)"

fun includes_str :: "string \<Rightarrow> string \<Rightarrow> bool" where
  "includes_str [] sub = (sub = [])"
| "includes_str (c # cs) sub = (startsWith (c # cs) sub \<or> includes_str cs sub)"

fun split_nl :: "string \<Rightarrow> string list" where
  \<comment> \<open>\<^verbatim>\<open>s.split('\n')\<close>: the empty string splits into one empty piece\<close>
  "split_nl [] = [[]]"
| "split_nl (c # cs) =
     (if c = CHR 0x0A then [] # split_nl cs
      else (case split_nl cs of [] \<Rightarrow> [[c]] | l # ls \<Rightarrow> (c # l) # ls))"

fun join_nl :: "string list \<Rightarrow> string" where
  \<comment> \<open>\<^verbatim>\<open>xs.join('\n')\<close>\<close>
  "join_nl [] = []"
| "join_nl [l] = l"
| "join_nl (l # m # ls) = l @ CHR 0x0A # join_nl (m # ls)"

definition indexOf :: "string \<Rightarrow> char \<Rightarrow> int" where
  \<comment> \<open>\<^verbatim>\<open>s.indexOf(c)\<close>: the first position of \<open>c\<close>, or \<open>-1\<close>\<close>
  "indexOf s c = (if c \<in> set s then int (length (takeWhile (\<lambda>x. x \<noteq> c) s)) else - 1)"

definition substring :: "string \<Rightarrow> int \<Rightarrow> int \<Rightarrow> string" where
  \<comment> \<open>\<^verbatim>\<open>s.substring(i, j)\<close> for \<open>0 \<le> i \<le> j\<close>\<close>
  "substring s i j = take (nat j - nat i) (drop (nat i) s)"

definition substring_from :: "string \<Rightarrow> int \<Rightarrow> string" where
  \<comment> \<open>\<^verbatim>\<open>s.substring(i)\<close> for \<open>0 \<le> i\<close>\<close>
  "substring_from s i = drop (nat i) s"

definition strip_quotes :: "string \<Rightarrow> string" where
  \<comment> \<open>\<^verbatim>\<open>s.replace(/^["']|["']$/g, '')\<close>: one quote off the front, one off the end\<close>
  "strip_quotes s =
     (let isQuote = (\<lambda>c. c = CHR 0x22 \<or> c = CHR 0x27);
          t = (case s of [] \<Rightarrow> [] | c # cs \<Rightarrow> if isQuote c then cs else s)
      in if t \<noteq> [] \<and> isQuote (last t) then butlast t else t)"

function show_nat :: "nat \<Rightarrow> string" where
  \<comment> \<open>a number inside a template literal\<close>
  "show_nat n =
     (if n < 10 then [char_of (48 + n)]
      else show_nat (n div 10) @ [char_of (48 + n mod 10)])"
  by pat_completeness auto
termination
  by (relation "measure id") auto

declare show_nat.simps [simp del]

section \<open>Errors\<close>

datatype error =
    Error string \<comment> \<open>\<^verbatim>\<open>new Error(message)\<close>\<close>
  | SyntaxError string \<comment> \<open>what \<^verbatim>\<open>JSON.parse\<close> throws\<close>
  | TypeError string \<comment> \<open>a property read on \<^verbatim>\<open>undefined\<close>\<close>
  | SystemError string string \<comment> \<open>a Node.js error with a \<^verbatim>\<open>code\<close> such as \<^verbatim>\<open>ENOENT\<close>\<close>

fun message :: "error \<Rightarrow> string" where
  "message (Error m) = m"
| "message (SyntaxError m) = m"
| "message (TypeError m) = m"
| "message (SystemError c m) = m"

fun error_code :: "error \<Rightarrow> string option" where
  "error_code (SystemError c m) = Some c"
| "error_code e = None"

fun error_name :: "error \<Rightarrow> string" where
  "error_name (SyntaxError m) = ''SyntaxError''"
| "error_name (TypeError m) = ''TypeError''"
| "error_name e = ''Error''"

definition error_text :: "error \<Rightarrow> string" where
  \<comment> \<open>\<^verbatim>\<open>${error.message || error}\<close>\<close>
  "error_text e = (if message e \<noteq> [] then message e else error_name e)"

section \<open>Data model\<close>

text \<open>
  \<^verbatim>\<open>interface Secrets { [key: string]: string }\<close>: an object used as a dictionary. It
  is modelled by its list of entries, in the order \<^verbatim>\<open>Object.entries\<close> lists them for
  ordinary property names (insertion order); assigning to a key that exists replaces its
  value in place. Property names that JavaScript treats in a way of their own (array
  indices, which are listed first, and \<^verbatim>\<open>__proto__\<close>) are not told apart from the others.
\<close>

type_synonym Secrets = "(string \<times> string) list"

fun obj_set :: "Secrets \<Rightarrow> string \<Rightarrow> string \<Rightarrow> Secrets" where
  \<comment> \<open>\<^verbatim>\<open>obj[key] = value\<close>\<close>
  "obj_set [] k v = [(k, v)]"
| "obj_set ((k', v') # m) k v = (if k' = k then (k, v) # m else (k', v') # obj_set m k v)"

definition truthy :: "string option \<Rightarrow> bool" where
  \<comment> \<open>a \<^verbatim>\<open>string | undefined\<close> used as a condition: \<^verbatim>\<open>undefined\<close> and \<^verbatim>\<open>''\<close> are falsy\<close>
  "truthy v = (case v of None \<Rightarrow> False | Some x \<Rightarrow> x \<noteq> [])"

definition str_or_empty :: "string option \<Rightarrow> string" where
  \<comment> \<open>\<^verbatim>\<open>v || ''\<close>\<close>
  "str_or_empty v = (case v of None \<Rightarrow> [] | Some x \<Rightarrow> x)"

datatype file_state =
    Unavailable error \<comment> \<open>\<^verbatim>\<open>fs.access\<close> or \<^verbatim>\<open>fs.readFile\<close> throws this error\<close>
  | File string \<comment> \<open>the file exists and has this content\<close>

datatype workspaceId_value =
    WsFalsy \<comment> \<open>the parsed data or its \<^verbatim>\<open>workspaceId\<close> is missing or a falsy non-string\<close>
  | WsOther \<comment> \<open>a truthy \<^verbatim>\<open>workspaceId\<close> that is not a string\<close>
  | WsString string

datatype config_file =
    NoConfig \<comment> \<open>\<^verbatim>\<open>existsSync\<close> is false\<close>
  | ConfigUnreadable error \<comment> \<open>\<^verbatim>\<open>readFileSync\<close> throws\<close>
  | ConfigInvalidJson string \<comment> \<open>\<^verbatim>\<open>JSON.parse\<close> throws a \<^verbatim>\<open>SyntaxError\<close> with this message\<close>
  | Config workspaceId_value

datatype proc_event =
    StdoutData string \<comment> \<open>one \<^verbatim>\<open>data\<close> chunk on stdout\<close>
  | StderrData string \<comment> \<open>one \<^verbatim>\<open>data\<close> chunk on stderr\<close>
  | Close "nat option" \<comment> \<open>the \<^verbatim>\<open>close\<close> event with its exit code, or \<^verbatim>\<open>null\<close>\<close>
  | ErrorEvent error \<comment> \<open>the \<^verbatim>\<open>error\<close> event\<close>

datatype child =
    SpawnThrows error \<comment> \<open>\<^verbatim>\<open>exec\<close> itself throws\<close>
  | NoStreams \<comment> \<open>the child has no stdout or stderr stream\<close>
  | Child "proc_event list" \<comment> \<open>the events the child emits, in order\<close>

datatype connect_result = ConstructorThrows error | LoginFails error | Connected

text \<open>
  What lies outside the loader and may differ from one moment to the next: the project's
  configuration file, the remote service behind the SDK, the \<^verbatim>\<open>infisical\<close> executable,
  and a fault of \<^verbatim>\<open>fs.writeFile\<close> (the error thrown and the file it leaves behind).
\<close>

record world =
  config_file :: config_file
  write_fault :: "(error \<times> file_state) option"
  sdk_connect :: "string option \<Rightarrow> string \<Rightarrow> string \<Rightarrow> connect_result"
  sdk_listSecrets :: "string \<Rightarrow> string \<Rightarrow> error + (string \<times> string) list option"
  exec_child :: "string \<Rightarrow> child"

text \<open>
  The Node.js process: \<^verbatim>\<open>process.env\<close>, the backup file \<^verbatim>\<open>.env_backup\<close> under the
  project root, the \<^verbatim>\<open>console.warn\<close> lines printed so far, the commands handed to
  \<^verbatim>\<open>exec\<close> so far, and the number of \<^verbatim>\<open>setInterval\<close> timers running. (Lines printed
  by \<^verbatim>\<open>console.log\<close> and \<^verbatim>\<open>console.error\<close> are not recorded.)
\<close>

record process =
  env :: "string \<rightharpoonup> string"
  backup_file :: file_state
  console_warn :: "string list"
  spawned :: "string list"
  timers :: nat

text \<open>The process together with the fields of one \<^verbatim>\<open>SecretsLoader\<close>.\<close>

record state = process +
  secrets :: Secrets
  client :: "string option option" \<comment> \<open>the SDK client, holding its \<^verbatim>\<open>siteUrl\<close> if any\<close>
  usingSDK :: bool
  projectRoot :: string
  cliEnvironment :: "string option"
  cliSlug :: "string option"

definition SecretsLoader :: "process \<Rightarrow> string \<Rightarrow> string option \<Rightarrow> string option \<Rightarrow> state" where
  \<comment> \<open>\<^verbatim>\<open>new SecretsLoader(projectRoot, environment, slug)\<close>\<close>
  "SecretsLoader p root environment slug =
     \<lparr>env = env p, backup_file = backup_file p, console_warn = console_warn p,
      spawned = spawned p, timers = timers p,
      secrets = [], client = None, usingSDK = False, projectRoot = root,
      cliEnvironment = environment, cliSlug = slug\<rparr>"

section \<open>Environment resolver\<close>

definition stage_switch :: "string \<Rightarrow> string" where
  \<comment> \<open>the \<^verbatim>\<open>switch (nodeEnv)\<close> of \<^verbatim>\<open>getInfisicalEnvironment\<close>\<close>
  "stage_switch nodeEnv =
     (if nodeEnv = ''development'' then ''development''
      else if nodeEnv = ''dev'' then ''development''
      else if nodeEnv = ''staging'' then ''staging''
      else if nodeEnv = ''production'' then ''production''
      else if nodeEnv = ''prod'' then ''production''
      else ''development'')"

definition getInfisicalEnvironment :: "state \<Rightarrow> string" where
  "getInfisicalEnvironment s =
     (if truthy (cliEnvironment s) \<and> trim (str_or_empty (cliEnvironment s)) \<noteq> []
      then trim (str_or_empty (cliEnvironment s))
      else
        let explicitEnv = env s ''INFISICAL_ENVIRONMENT'' in
        if truthy explicitEnv \<and> trim (str_or_empty explicitEnv) \<noteq> []
        then trim (str_or_empty explicitEnv)
        else
          let nodeEnv = toLowerCase (str_or_empty (env s ''NODE_ENV''))
          in stage_switch nodeEnv)"

section \<open>Project identity\<close>

definition nl :: string where
  "nl = [CHR 0x0A]"

definition config_hint :: string where
  "config_hint =
     ''{'' @ nl @ ''  '' @ [CHR 0x22] @ ''workspaceId'' @ [CHR 0x22] @ '': '' @ [CHR 0x22]
     @ ''your-workspace-id-here'' @ [CHR 0x22] @ nl @ ''}''"

definition getProjectId_catch :: "error \<Rightarrow> error + string" where
  \<comment> \<open>the \<^verbatim>\<open>catch\<close> block of \<^verbatim>\<open>getProjectId\<close>\<close>
  "getProjectId_catch e =
     (case e of
        SyntaxError m \<Rightarrow>
          Inl (Error (''Invalid JSON in .infisical.json: '' @ m @ nl
                      @ ''Please ensure .infisical.json contains valid JSON:'' @ nl @ config_hint))
      | _ \<Rightarrow>
          if message e \<noteq> [] \<and> includes_str (message e) ''workspaceId'' then Inl e
          else Inl (Error (''Failed to read .infisical.json: '' @ message e @ nl
                           @ ''Please ensure the file exists and is readable.'')))"

definition getProjectId :: "world \<Rightarrow> state \<Rightarrow> error + string" where
  "getProjectId w s =
     (case config_file w of
        NoConfig \<Rightarrow>
          Inl (Error (''.infisical.json not found in '' @ projectRoot s @ nl
                      @ ''Please create .infisical.json with your Infisical workspace ID:'' @ nl
                      @ config_hint))
      | ConfigUnreadable e \<Rightarrow> getProjectId_catch e
      | ConfigInvalidJson m \<Rightarrow> getProjectId_catch (SyntaxError m)
      | Config workspaceId \<Rightarrow>
          (let required = Error (''workspaceId is required in .infisical.json'' @ nl
                                 @ ''Please ensure your .infisical.json contains:'' @ nl
                                 @ config_hint);
               nonempty = Error ''workspaceId in .infisical.json must be a non-empty string''
           in case workspaceId of
                WsFalsy \<Rightarrow> getProjectId_catch required
              | WsOther \<Rightarrow> getProjectId_catch nonempty
              | WsString i \<Rightarrow>
                  if i = [] then getProjectId_catch required
                  else if trim i = [] then getProjectId_catch nonempty
                  else Inr (trim i)))"

section \<open>Publishing into the process environment\<close>

definition populateEnv :: "state \<Rightarrow> state" where
  "populateEnv s =
     s\<lparr>env := foldl (\<lambda>e (key, value). if \<not> truthy (e key) then e(key \<mapsto> value) else e)
                      (env s) (secrets s)\<rparr>"

section \<open>Backup store\<close>

definition warn :: "state \<Rightarrow> string \<Rightarrow> state" where
  \<comment> \<open>\<^verbatim>\<open>console.warn(line)\<close>\<close>
  "warn s line = s\<lparr>console_warn := console_warn s @ [line]\<rparr>"

definition writeFile :: "world \<Rightarrow> state \<Rightarrow> string \<Rightarrow> error option \<times> state" where
  \<comment> \<open>\<^verbatim>\<open>fs.writeFile(backupPath, content)\<close>\<close>
  "writeFile w s content =
     (case write_fault w of
        None \<Rightarrow> (None, s\<lparr>backup_file := File content\<rparr>)
      | Some (e, left) \<Rightarrow> (Some e, s\<lparr>backup_file := left\<rparr>))"

definition saveBackup :: "world \<Rightarrow> state \<Rightarrow> error option \<times> state" where
  "saveBackup w s =
     (let secretCount = length (secrets s) in
      if secretCount = 0
      then (None, warn s ''No secrets to save to backup'')
      else
        let envContent = join_nl (map (\<lambda>(key, value). key @ ''='' @ value) (secrets s))
        in writeFile w s envContent)"

definition parse_line :: "Secrets \<Rightarrow> string \<Rightarrow> Secrets" where
  \<comment> \<open>the body of the \<^verbatim>\<open>for (const line of lines)\<close> loops\<close>
  "parse_line acc line =
     (let equalIndex = indexOf line CHR ''='' in
      if equalIndex > 0
      then obj_set acc (substring line 0 equalIndex) (substring_from line (equalIndex + 1))
      else acc)"

definition parse_lines :: "string list \<Rightarrow> Secrets" where
  "parse_lines lines = foldl parse_line [] lines"

definition loadBackup :: "state \<Rightarrow> error option \<times> state" where
  "loadBackup s =
     (case backup_file s of
        Unavailable e \<Rightarrow>
          if error_code e = Some ''ENOENT''
          then (Some (Error ''No backup file found (.env_backup)''), s)
          else (Some (Error ''No backup available and Infisical is unavailable''), s)
      | File envData \<Rightarrow>
          let lines = filter (\<lambda>line. trim line \<noteq> [] \<and> \<not> startsWith line ''#'')
                             (split_nl (trim envData))
          in (None, s\<lparr>secrets := parse_lines lines\<rparr>))"

section \<open>Remote access: the SDK\<close>

definition initSDK :: "world \<Rightarrow> state \<Rightarrow> error option \<times> state" where
  "initSDK w s =
     (let clientId = env s ''INFISICAL_CLIENT_ID'';
          clientSecret = env s ''INFISICAL_CLIENT_SECRET'';
          siteUrl = env s ''INFISICAL_BASE_URL''
      in
      if \<not> truthy clientId \<or> \<not> truthy clientSecret
      then (Some (Error ''INFISICAL_CLIENT_ID and INFISICAL_CLIENT_SECRET are required''), s)
      else
        let clientId = strip_quotes (trim (str_or_empty clientId));
            clientSecret = strip_quotes (trim (str_or_empty clientSecret));
            siteUrl = (if truthy siteUrl then Some (strip_quotes (trim (str_or_empty siteUrl)))
                       else siteUrl)
        in
        if clientId = [] \<or> clientSecret = []
        then (Some (Error ''INFISICAL_CLIENT_ID and INFISICAL_CLIENT_SECRET cannot be empty after trimming''), s)
        else
          (case getProjectId w s of
             Inl e \<Rightarrow> (Some e, s)
           | Inr projectId \<Rightarrow>
               (let clientConfig = (if truthy siteUrl then siteUrl else None) in
                (case sdk_connect w clientConfig clientId clientSecret of
                   ConstructorThrows e \<Rightarrow> (Some e, s)
                 | LoginFails e \<Rightarrow> (Some e, s\<lparr>client := Some clientConfig\<rparr>)
                 | Connected \<Rightarrow> (None, s\<lparr>client := Some clientConfig\<rparr>)))))"

definition loadSecrets :: "world \<Rightarrow> state \<Rightarrow> error option \<times> state" where
  "loadSecrets w s =
     (case getProjectId w s of
        Inl e \<Rightarrow> (Some e, s)
      | Inr projectId \<Rightarrow>
          (let environment = getInfisicalEnvironment s in
           (case client s of
              None \<Rightarrow> (Some (TypeError ''Cannot read properties of undefined''), s)
            | Some c \<Rightarrow>
                (case sdk_listSecrets w projectId environment of
                   Inl e \<Rightarrow> (Some e, s)
                 | Inr response \<Rightarrow>
                     (let secretsArray = (case response of None \<Rightarrow> [] | Some items \<Rightarrow> items)
                      in (None, s\<lparr>secrets := foldl (\<lambda>acc (secretKey, secretValue).
                                                      obj_set acc secretKey secretValue)
                                                   [] secretsArray\<rparr>))))))"

section \<open>Remote access: the subprocess\<close>

record ExecResult =
  stdout :: string
  stderr :: string

text \<open>
  The variables of one \<^verbatim>\<open>execWithStreaming\<close> call: the two buffers, how the promise
  was settled (if it was), and whether \<^verbatim>\<open>process.kill()\<close> was called.
\<close>

record exec_state =
  out_buf :: string
  err_buf :: string
  settled :: "(error + ExecResult) option"
  kill_sent :: bool

definition login_phrase :: string where
  "login_phrase = ''No valid login session found, triggering login flow''"

definition settle :: "exec_state \<Rightarrow> error + ExecResult \<Rightarrow> exec_state" where
  \<comment> \<open>\<^verbatim>\<open>settle\<close> with a child at hand: the first call kills the child and settles the promise\<close>
  "settle st r = (if settled st \<noteq> None then st else st\<lparr>settled := Some r, kill_sent := True\<rparr>)"

fun on_event :: "exec_state \<Rightarrow> proc_event \<Rightarrow> exec_state" where
  "on_event st (StdoutData d) =
     (let st' = st\<lparr>out_buf := out_buf st @ d\<rparr> in
      if includes_str d login_phrase then settle st' (Inl (Error login_phrase)) else st')"
| "on_event st (StderrData d) =
     (let st' = st\<lparr>err_buf := err_buf st @ d\<rparr> in
      if includes_str d login_phrase then settle st' (Inl (Error login_phrase)) else st')"
| "on_event st (Close c) =
     (if settled st \<noteq> None then st
      else (case c of
              None \<Rightarrow> settle st (Inr \<lparr>stdout = out_buf st, stderr = err_buf st\<rparr>)
            | Some n \<Rightarrow>
                if n \<noteq> 0 then settle st (Inl (Error (''Command failed with exit code '' @ show_nat n)))
                else settle st (Inr \<lparr>stdout = out_buf st, stderr = err_buf st\<rparr>)))"
| "on_event st (ErrorEvent e) = settle st (Inl e)"

definition run_child :: "child \<Rightarrow> exec_state" where
  "run_child c =
     (let st0 = \<lparr>out_buf = [], err_buf = [], settled = None, kill_sent = False\<rparr> in
      case c of
        SpawnThrows e \<Rightarrow> st0\<lparr>settled := Some (Inl e)\<rparr>
      | NoStreams \<Rightarrow> settle st0 (Inl (Error ''Failed to create process streams''))
      | Child events \<Rightarrow> foldl on_event st0 events)"

definition execWithStreaming ::
  "world \<Rightarrow> state \<Rightarrow> string \<Rightarrow> (error + ExecResult) option \<times> state" where
  \<comment> \<open>\<open>None\<close>: the promise is never settled, and the caller waits forever\<close>
  "execWithStreaming w s command =
     (settled (run_child (exec_child w command)), s\<lparr>spawned := spawned s @ [command]\<rparr>)"

definition cli_command :: "string \<Rightarrow> string \<Rightarrow> string" where
  "cli_command environment workspaceId =
     ''infisical secrets --plain --silent --env='' @ environment @ '' --projectId='' @ workspaceId"

definition cli_retry_command :: "string \<Rightarrow> string" where
  "cli_retry_command environment = ''infisical secrets --plain --silent --env='' @ environment"

definition cli_debug_command :: "string \<Rightarrow> string" where
  "cli_debug_command environment = ''infisical secrets --plain --env='' @ environment"

definition cli_exec ::
  "world \<Rightarrow> state \<Rightarrow> string \<Rightarrow> string \<Rightarrow> (error + ExecResult) option \<times> state" where
  \<comment> \<open>the inner \<^verbatim>\<open>try\<close> of \<^verbatim>\<open>loadFromCLI\<close>: up to three invocations\<close>
  "cli_exec w s environment workspaceId =
     (let command = cli_command environment workspaceId in
      (case execWithStreaming w s command of
         (None, s1) \<Rightarrow> (None, s1)
       | (Some (Inr result), s1) \<Rightarrow> (Some (Inr result), s1)
       | (Some (Inl error), s1) \<Rightarrow>
           (let command = cli_retry_command environment in
            (case execWithStreaming w s1 command of
               (None, s2) \<Rightarrow> (None, s2)
             | (Some (Inr result), s2) \<Rightarrow> (Some (Inr result), s2)
             | (Some (Inl retryError), s2) \<Rightarrow>
                 (let debugCommand = cli_debug_command environment in
                  (case execWithStreaming w s2 debugCommand of
                     (None, s3) \<Rightarrow> (None, s3)
                   | (Some (Inr debugResult), s3) \<Rightarrow> (Some (Inr debugResult), s3)
                   | (Some (Inl debugError), s3) \<Rightarrow> (Some (Inl retryError), s3)))))))"

definition loadFromCLI :: "world \<Rightarrow> state \<Rightarrow> (error option \<times> state) option" where
  \<comment> \<open>\<open>None\<close>: the call never returns\<close>
  "loadFromCLI w s =
     (let environment = getInfisicalEnvironment s in
      (case getProjectId w s of
         Inl e \<Rightarrow> Some (Some e, s)
       | Inr workspaceId \<Rightarrow>
           (case cli_exec w s environment workspaceId of
              (None, s1) \<Rightarrow> None
            | (Some (Inr result), s1) \<Rightarrow>
                (let lines = filter (\<lambda>line. trim line \<noteq> []) (split_nl (trim (stdout result)));
                     s2 = s1\<lparr>secrets := parse_lines lines\<rparr>;
                     secretCount = length (secrets s2);
                     s3 = (if stderr result \<noteq> [] \<and> trim (stderr result) \<noteq> []
                           then warn s2 (''CLI warnings: '' @ trim (stderr result)) else s2);
                     s4 = (if secretCount = 0
                           then warn (warn (warn (warn (warn s3
                                  ''No secrets loaded from CLI. This could mean:'')
                                  ''- No secrets exist in this environment'')
                                  (''- You don'' @ [CHR 0x27] @ ''t have access to any secrets''))
                                  ''- CLI authentication failed'')
                                  (''- Environment '' @ [CHR 0x22] @ environment @ [CHR 0x22]
                                   @ '' might not exist or have a different name'')
                           else s3)
                 in Some (None, s4))
            | (Some (Inl error), s1) \<Rightarrow>
                (let secretCount = length (secrets s1) in
                 if secretCount > 0
                 then Some (None,
                        warn (warn s1 (''CLI encountered an error but loaded '' @ show_nat secretCount
                                       @ '' secrets before failure''))
                             (''Error: '' @ error_text error))
                 else Some (Some error, s1)))))"

section \<open>The orchestrator\<close>

definition startPolling :: "state \<Rightarrow> state" where
  \<comment> \<open>\<^verbatim>\<open>setInterval(..., 60000)\<close>: one more timer runs\<close>
  "startPolling s = s\<lparr>timers := timers s + 1\<rparr>"

definition sdk_tier :: "world \<Rightarrow> state \<Rightarrow> error option \<times> state" where
  \<comment> \<open>the outer \<^verbatim>\<open>try\<close> block of \<^verbatim>\<open>initialize\<close>\<close>
  "sdk_tier w s =
     (case initSDK w s of
        (Some e, s1) \<Rightarrow> (Some e, s1)
      | (None, s1) \<Rightarrow>
          (case loadSecrets w s1 of
             (Some e, s2) \<Rightarrow> (Some e, s2)
           | (None, s2) \<Rightarrow>
               (case saveBackup w s2 of
                  (Some e, s3) \<Rightarrow> (Some e, s3)
                | (None, s3) \<Rightarrow> (None, startPolling (s3\<lparr>usingSDK := True\<rparr>)))))"

definition initialize :: "world \<Rightarrow> state \<Rightarrow> (error option \<times> state) option" where
  \<comment> \<open>\<open>Some (None, s')\<close>: returns; \<open>Some (Some e, s')\<close>: throws \<open>e\<close>; \<open>None\<close>: never returns\<close>
  "initialize w s =
     (case sdk_tier w s of
        (None, s1) \<Rightarrow> Some (None, populateEnv s1)
      | (Some sdkError, s1) \<Rightarrow>
          (case loadFromCLI w s1 of
             None \<Rightarrow> None
           | Some (None, s2) \<Rightarrow> Some (None, populateEnv s2)
           | Some (Some cliError, s2) \<Rightarrow>
               (case loadBackup s2 of
                  (None, s3) \<Rightarrow> Some (None, populateEnv s3)
                | (Some backupError, s3) \<Rightarrow> Some (Some sdkError, s3))))"

definition pollTick :: "world \<Rightarrow> state \<Rightarrow> state" where
  \<comment> \<open>one run of the timer's callback; the \<^verbatim>\<open>catch\<close> swallows every error\<close>
  "pollTick w s =
     (case loadSecrets w s of
        (Some e, s1) \<Rightarrow> s1
      | (None, s1) \<Rightarrow>
          (case saveBackup w s1 of
             (Some e, s2) \<Rightarrow> s2
           | (None, s2) \<Rightarrow> populateEnv s2))"

definition polling :: "world list \<Rightarrow> state \<Rightarrow> state" where
  \<comment> \<open>the ticks that follow, one after the other, each with the world as it is then\<close>
  "polling ws s = (if timers s = 0 then s else foldl (\<lambda>s' w. pollTick w s') s ws)"

section \<open>The command-line front end\<close>

record options =
  opt_env :: "string option" \<comment> \<open>\<^verbatim>\<open>--env <environment>\<close>\<close>
  opt_path :: "string option" \<comment> \<open>\<^verbatim>\<open>--path <path>\<close>\<close>

definition run_loader ::
  "(process \<Rightarrow> process) \<Rightarrow> string \<Rightarrow> options \<Rightarrow> process \<Rightarrow> state" where
  \<comment> \<open>the \<^verbatim>\<open>run\<close> action up to \<^verbatim>\<open>new SecretsLoader(process.cwd(), path)\<close>; what
      \<^verbatim>\<open>dotenv.config()\<close> does to the process and \<^verbatim>\<open>process.cwd()\<close> are parameters\<close>
  "run_loader dotenv_config cwd opts p =
     (let p1 = dotenv_config p;
          environment = opt_env opts;
          path = opt_path opts;
          p2 = (if truthy environment
                then p1\<lparr>env := (env p1)(''NODE_ENV'' \<mapsto> str_or_empty environment)\<rparr>
                else p1)
      in SecretsLoader p2 cwd path None)"

definition run_action ::
  "world \<Rightarrow> (process \<Rightarrow> process) \<Rightarrow> string \<Rightarrow> options \<Rightarrow> process
     \<Rightarrow> (error option \<times> state) option" where
  \<comment> \<open>the \<^verbatim>\<open>run\<close> action up to \<^verbatim>\<open>await loader.initialize()\<close>\<close>
  "run_action w dotenv_config cwd opts p = initialize w (run_loader dotenv_config cwd opts p)"

section \<open>Reading the secrets: objects in a store\<close>

text \<open>
  \<^verbatim>\<open>getSecrets\<close> hands an object to the caller, who may change it. To tell the loader's
  object from the caller's, objects live in a store and are named by references.
\<close>

type_synonym ref = nat

record store =
  objects :: "ref \<rightharpoonup> Secrets"
  fresh :: ref \<comment> \<open>the next unused reference\<close>

definition alloc :: "store \<Rightarrow> Secrets \<Rightarrow> ref \<times> store" where
  "alloc h obj = (fresh h, h\<lparr>objects := (objects h)(fresh h \<mapsto> obj), fresh := Suc (fresh h)\<rparr>)"

definition deref :: "store \<Rightarrow> ref \<Rightarrow> Secrets" where
  "deref h r = (case objects h r of None \<Rightarrow> [] | Some obj \<Rightarrow> obj)"

definition getSecrets :: "store \<Rightarrow> ref \<Rightarrow> ref \<times> store" where
  \<comment> \<open>\<^verbatim>\<open>return { ...this.secrets }\<close>: a new object with the entries of \<^verbatim>\<open>this.secrets\<close>\<close>
  "getSecrets h this_secrets = alloc h (deref h this_secrets)"

datatype mutation =
    SetProp string string \<comment> \<open>\<^verbatim>\<open>obj[key] = value\<close>\<close>
  | DeleteProp string \<comment> \<open>\<^verbatim>\<open>delete obj[key]\<close>\<close>

fun mutate :: "ref \<Rightarrow> store \<Rightarrow> mutation \<Rightarrow> store" where
  "mutate r h (SetProp k v) = h\<lparr>objects := (objects h)(r \<mapsto> obj_set (deref h r) k v)\<rparr>"
| "mutate r h (DeleteProp k) =
     h\<lparr>objects := (objects h)(r \<mapsto> filter (\<lambda>(k', v). k' \<noteq> k) (deref h r))\<rparr>"

definition loader_view :: "state \<Rightarrow> store \<Rightarrow> ref \<Rightarrow> state" where
  \<comment> \<open>the loader whose \<^verbatim>\<open>this.secrets\<close> is the object at \<open>r\<close>\<close>
  "loader_view s h r = s\<lparr>secrets := deref h r\<rparr>"

section \<open>Sample inputs\<close>

definition no_backup :: file_state where
  "no_backup = Unavailable (SystemError ''ENOENT'' ''no such file or directory'')"

definition process0 :: process where
  \<comment> \<open>a process with an empty environment and no backup file\<close>
  "process0 =
     \<lparr>env = Map.empty, backup_file = no_backup, console_warn = [], spawned = [], timers = 0\<rparr>"

definition world0 :: world where
  \<comment> \<open>the SDK answers with one secret; every \<^verbatim>\<open>infisical\<close> invocation exits with code 1\<close>
  "world0 =
     \<lparr>config_file = Config (WsString ''ws-1''), write_fault = None,
      sdk_connect = (\<lambda>siteUrl clientId clientSecret. Connected),
      sdk_listSecrets = (\<lambda>projectId environment. Inr (Some [(''A'', ''1'')])),
      exec_child = (\<lambda>command. Child [Close (Some 1)])\<rparr>"

definition state0 :: state where
  "state0 = SecretsLoader process0 ''/app'' None None"

definition cli_prints :: "string \<Rightarrow> nat \<Rightarrow> world" where
  \<comment> \<open>every \<^verbatim>\<open>infisical\<close> invocation prints one chunk and exits with the given code\<close>
  "cli_prints text exit_code =
     world0\<lparr>exec_child := (\<lambda>command. Child [StdoutData text, Close (Some exit_code)])\<rparr>"

definition api_down :: world where
  "api_down = world0\<lparr>sdk_listSecrets := (\<lambda>projectId environment. Inl (Error ''fetch failed''))\<rparr>"

definition polling_state :: state where
  \<comment> \<open>a loader after a successful start through the SDK\<close>
  "polling_state =
     state0\<lparr>backup_file := File ''A=1'', timers := 1, secrets := [(''A'', ''1'')],
            client := Some None, usingSDK := True\<rparr>"

definition preset_empty :: state where
  \<comment> \<open>\<^verbatim>\<open>API_KEY\<close> is set, to the empty string\<close>
  "preset_empty = state0\<lparr>env := [''API_KEY'' \<mapsto> '''']\<rparr>"

definition login_world :: world where
  \<comment> \<open>every \<^verbatim>\<open>infisical\<close> invocation asks for a login in its second chunk\<close>
  "login_world =
     world0\<lparr>exec_child := (\<lambda>command.
        Child [StderrData ''warning: update available'', StdoutData (''error: '' @ login_phrase),
               StdoutData ''FOO=bar'', Close (Some 0)])\<rparr>"

definition sample_secrets :: Secrets where
  "sample_secrets = [(''A'', ''1''), (''URL'', ''http://h/?a=b&c=d'')]"

definition store0 :: store where
  \<comment> \<open>a store holding one object, the loader's secrets\<close>
  "store0 = \<lparr>objects = [0 \<mapsto> [(''A'', ''1'')]], fresh = 1\<rparr>"

definition credentials_missing :: error where
  "credentials_missing = Error ''INFISICAL_CLIENT_ID and INFISICAL_CLIENT_SECRET are required''"

section \<open>Auxiliary lemmas\<close>

text \<open>
  Facts about the resolver's tests, and what each operation leaves unchanged.
\<close>

lemma trim_Nil: "trim [] = []"
  by (simp add: trim_def)

lemma toLowerChar_idem: "toLowerChar (toLowerChar c) = toLowerChar c"
  by (auto simp add: toLowerChar_def Let_def)

lemma toLowerCase_idem: "toLowerCase (toLowerCase v) = toLowerCase v"
  by (simp add: toLowerCase_def toLowerChar_idem)

lemma truthy_trim:
  "(truthy v \<and> trim (str_or_empty v) \<noteq> []) = (trim (str_or_empty v) \<noteq> [])"
  by (cases v) (auto simp add: truthy_def str_or_empty_def trim_Nil)

lemma getInfisicalEnvironment_unfold:
  "getInfisicalEnvironment s =
     (if trim (str_or_empty (cliEnvironment s)) \<noteq> [] then trim (str_or_empty (cliEnvironment s))
      else if trim (str_or_empty (env s ''INFISICAL_ENVIRONMENT'')) \<noteq> []
           then trim (str_or_empty (env s ''INFISICAL_ENVIRONMENT''))
           else stage_switch (toLowerCase (str_or_empty (env s ''NODE_ENV''))))"
  unfolding getInfisicalEnvironment_def Let_def truthy_trim by (rule refl)

lemma stage_switch_cases:
  "(x \<in> {''development'', ''dev''} \<longrightarrow> stage_switch x = ''development'')
   \<and> (x = ''staging'' \<longrightarrow> stage_switch x = ''staging'')
   \<and> (x \<in> {''production'', ''prod''} \<longrightarrow> stage_switch x = ''production'')
   \<and> (x \<notin> {''development'', ''dev'', ''staging'', ''production'', ''prod''} \<longrightarrow>
         stage_switch x = ''development'')"
  by (simp add: stage_switch_def)

lemma stage_switch_nonempty: "stage_switch x \<noteq> []"
  by (simp add: stage_switch_def)

lemma loadSecrets_fails_state: "loadSecrets w s = (Some e, s') \<Longrightarrow> s' = s"
  by (auto simp add: loadSecrets_def Let_def split: sum.splits option.splits)

lemma initSDK_frame:
  "env (snd (initSDK w s)) = env s \<and> backup_file (snd (initSDK w s)) = backup_file s
   \<and> secrets (snd (initSDK w s)) = secrets s \<and> usingSDK (snd (initSDK w s)) = usingSDK s
   \<and> timers (snd (initSDK w s)) = timers s"
  by (simp add: initSDK_def Let_def split: sum.splits connect_result.splits)

lemma cli_exec_frame:
  "env (snd (cli_exec w s environment workspaceId)) = env s
   \<and> backup_file (snd (cli_exec w s environment workspaceId)) = backup_file s
   \<and> secrets (snd (cli_exec w s environment workspaceId)) = secrets s
   \<and> usingSDK (snd (cli_exec w s environment workspaceId)) = usingSDK s
   \<and> timers (snd (cli_exec w s environment workspaceId)) = timers s
   \<and> console_warn (snd (cli_exec w s environment workspaceId)) = console_warn s"
  by (simp add: cli_exec_def execWithStreaming_def Let_def split: option.splits sum.splits)

lemma loadFromCLI_frame:
  assumes "loadFromCLI w s = Some (r, s')"
  shows "env s' = env s \<and> backup_file s' = backup_file s
     \<and> usingSDK s' = usingSDK s \<and> timers s' = timers s"
proof (cases "getProjectId w s")
  case (Inl e)
  with assms show ?thesis by (simp add: loadFromCLI_def Let_def)
next
  case (Inr i)
  obtain out s1 where c: "cli_exec w s (getInfisicalEnvironment s) i = (out, s1)"
    by (cases "cli_exec w s (getInfisicalEnvironment s) i") auto
  have fr: "env s1 = env s" "backup_file s1 = backup_file s"
     "usingSDK s1 = usingSDK s" "timers s1 = timers s"
    using cli_exec_frame [of w s "getInfisicalEnvironment s" i] c by simp_all
  show ?thesis
  proof (cases out)
    case None
    with assms Inr c show ?thesis by (simp add: loadFromCLI_def Let_def)
  next
    case (Some res)
    show ?thesis
    proof (cases res)
      case (Inl err)
      with assms Inr c Some fr show ?thesis
        by (auto simp add: loadFromCLI_def Let_def warn_def split: if_splits)
    next
      case (Inr result)
      with assms \<open>getProjectId w s = Inr i\<close> c Some fr show ?thesis
        by (auto simp add: loadFromCLI_def Let_def warn_def split: if_splits)
    qed
  qed
qed

lemma populateEnv_frame:
  "backup_file (populateEnv s) = backup_file s \<and> secrets (populateEnv s) = secrets s
   \<and> usingSDK (populateEnv s) = usingSDK s \<and> timers (populateEnv s) = timers s"
  by (simp add: populateEnv_def)

lemma sdk_tier_api_fails:
  assumes "fst (initSDK w s) = Some e
           \<or> (fst (initSDK w s) = None \<and> fst (loadSecrets w (snd (initSDK w s))) = Some e)"
  shows "sdk_tier w s = (Some e, snd (initSDK w s))"
proof (cases "initSDK w s")
  case (Pair r s1)
  show ?thesis
  proof (cases r)
    case None
    with Pair assms have "fst (loadSecrets w s1) = Some e" by simp
    then obtain s2 where l: "loadSecrets w s1 = (Some e, s2)"
      by (cases "loadSecrets w s1") auto
    then have "s2 = s1" by (rule loadSecrets_fails_state)
    with Pair None l show ?thesis by (simp add: sdk_tier_def)
  next
    case (Some e')
    with Pair assms show ?thesis by (simp add: sdk_tier_def)
  qed
qed

section \<open>Fallback order of \<^verbatim>\<open>initialize\<close>\<close>

text \<open>
  Claim C1. Suppose the API tier fails with error \<open>e\<close>: \<^verbatim>\<open>initSDK\<close> throws, or it
  returns and \<^verbatim>\<open>loadSecrets\<close> throws. If \<^verbatim>\<open>loadFromCLI\<close> then returns, \<^verbatim>\<open>initialize\<close>
  returns with the state the subprocess tier left (published by \<^verbatim>\<open>populateEnv\<close>), the
  backup file is the one from before the call, \<^verbatim>\<open>usingSDK\<close> is unchanged and no timer is
  started. If \<^verbatim>\<open>loadFromCLI\<close> throws and the backup file is readable, \<^verbatim>\<open>initialize\<close>
  returns holding the secrets parsed from that file. If \<^verbatim>\<open>loadFromCLI\<close> throws and the
  backup file cannot be read, \<^verbatim>\<open>initialize\<close> throws \<open>e\<close>, the error of the API tier.
\<close>

theorem initialize_fallback_order:
  assumes api: "fst (initSDK w s) = Some e
           \<or> (fst (initSDK w s) = None \<and> fst (loadSecrets w (snd (initSDK w s))) = Some e)"
      and s1: "s1 = snd (initSDK w s)"
  shows "(\<forall>s2. loadFromCLI w s1 = Some (None, s2) \<longrightarrow>
            initialize w s = Some (None, populateEnv s2)
            \<and> backup_file (populateEnv s2) = backup_file s
            \<and> usingSDK (populateEnv s2) = usingSDK s
            \<and> timers (populateEnv s2) = timers s)
       \<and> (\<forall>cliError s2 envData. loadFromCLI w s1 = Some (Some cliError, s2)
              \<and> backup_file s = File envData \<longrightarrow>
            initialize w s = Some (None, populateEnv (snd (loadBackup s2)))
            \<and> secrets (populateEnv (snd (loadBackup s2)))
                = parse_lines (filter (\<lambda>line. trim line \<noteq> [] \<and> \<not> startsWith line ''#'')
                                      (split_nl (trim envData)))
            \<and> backup_file (populateEnv (snd (loadBackup s2))) = backup_file s
            \<and> usingSDK (populateEnv (snd (loadBackup s2))) = usingSDK s
            \<and> timers (populateEnv (snd (loadBackup s2))) = timers s)
       \<and> (\<forall>cliError s2 backupError. loadFromCLI w s1 = Some (Some cliError, s2)
              \<and> backup_file s = Unavailable backupError \<longrightarrow>
            initialize w s = Some (Some e, s2))"
proof -
  have tier: "sdk_tier w s = (Some e, s1)"
    using sdk_tier_api_fails [OF api] s1 by simp
  have fr1: "backup_file s1 = backup_file s" "usingSDK s1 = usingSDK s" "timers s1 = timers s"
    using initSDK_frame [of w s] s1 by simp_all
  have a: "\<forall>s2. loadFromCLI w s1 = Some (None, s2) \<longrightarrow>
            initialize w s = Some (None, populateEnv s2)
            \<and> backup_file (populateEnv s2) = backup_file s
            \<and> usingSDK (populateEnv s2) = usingSDK s
            \<and> timers (populateEnv s2) = timers s"
    using tier fr1 by (auto simp add: initialize_def populateEnv_frame dest: loadFromCLI_frame)
  have b: "\<forall>cliError s2 envData. loadFromCLI w s1 = Some (Some cliError, s2)
              \<and> backup_file s = File envData \<longrightarrow>
            initialize w s = Some (None, populateEnv (snd (loadBackup s2)))
            \<and> secrets (populateEnv (snd (loadBackup s2)))
                = parse_lines (filter (\<lambda>line. trim line \<noteq> [] \<and> \<not> startsWith line ''#'')
                                      (split_nl (trim envData)))
            \<and> backup_file (populateEnv (snd (loadBackup s2))) = backup_file s
            \<and> usingSDK (populateEnv (snd (loadBackup s2))) = usingSDK s
            \<and> timers (populateEnv (snd (loadBackup s2))) = timers s"
    using tier fr1
    by (auto simp add: initialize_def populateEnv_frame loadBackup_def Let_def
             dest: loadFromCLI_frame)
  have c: "\<forall>cliError s2 backupError. loadFromCLI w s1 = Some (Some cliError, s2)
              \<and> backup_file s = Unavailable backupError \<longrightarrow>
            initialize w s = Some (Some e, s2)"
    using tier fr1
    by (auto simp add: initialize_def loadBackup_def dest: loadFromCLI_frame)
  from a b c show ?thesis by blast
qed

theorem initialize_fallback_order_witness:
  "fst (initSDK (cli_prints (''FOO=bar'' @ nl @ ''BAZ=qux'') 0) state0) = Some credentials_missing
   \<and> (\<exists>s2. loadFromCLI (cli_prints (''FOO=bar'' @ nl @ ''BAZ=qux'') 0)
              (snd (initSDK (cli_prints (''FOO=bar'' @ nl @ ''BAZ=qux'') 0) state0)) = Some (None, s2)
           \<and> initialize (cli_prints (''FOO=bar'' @ nl @ ''BAZ=qux'') 0) state0
               = Some (None, populateEnv s2)
           \<and> backup_file (populateEnv s2) = backup_file state0)
   \<and> fst (initSDK world0 (state0\<lparr>backup_file := File ''A=1''\<rparr>)) = Some credentials_missing
   \<and> (\<exists>cliError s2. loadFromCLI world0 (snd (initSDK world0 (state0\<lparr>backup_file := File ''A=1''\<rparr>)))
               = Some (Some cliError, s2)
           \<and> initialize world0 (state0\<lparr>backup_file := File ''A=1''\<rparr>)
               = Some (None, populateEnv (snd (loadBackup s2)))
           \<and> secrets (populateEnv (snd (loadBackup s2))) = [(''A'', ''1'')])
   \<and> fst (initSDK world0 state0) = Some credentials_missing
   \<and> (\<exists>cliError s2. loadFromCLI world0 (snd (initSDK world0 state0)) = Some (Some cliError, s2)
           \<and> initialize world0 state0 = Some (Some credentials_missing, s2))"
proof -
  let ?wa = "cli_prints (''FOO=bar'' @ nl @ ''BAZ=qux'') 0"
  let ?sb = "state0\<lparr>backup_file := File ''A=1''\<rparr>"
  have api_a: "fst (initSDK ?wa state0) = Some credentials_missing" by code_simp
  have "case loadFromCLI ?wa (snd (initSDK ?wa state0)) of
          Some (None, s2) \<Rightarrow> True | _ \<Rightarrow> False" by code_simp
  then obtain s2a where cli_a: "loadFromCLI ?wa (snd (initSDK ?wa state0)) = Some (None, s2a)"
    by (auto split: option.splits prod.splits)
  from initialize_fallback_order [OF disjI1 [OF api_a] refl] cli_a
  have a: "initialize ?wa state0 = Some (None, populateEnv s2a)
           \<and> backup_file (populateEnv s2a) = backup_file state0"
    by blast
  have api_b: "fst (initSDK world0 ?sb) = Some credentials_missing" by code_simp
  have "case loadFromCLI world0 (snd (initSDK world0 ?sb)) of
          Some (Some cliError, s2) \<Rightarrow> True | _ \<Rightarrow> False" by code_simp
  then obtain ce_b s2b where
    cli_b: "loadFromCLI world0 (snd (initSDK world0 ?sb)) = Some (Some ce_b, s2b)"
    by (auto split: option.splits prod.splits)
  have file_b: "backup_file ?sb = File ''A=1''" by simp
  have parse_b: "parse_lines (filter (\<lambda>line. trim line \<noteq> [] \<and> \<not> startsWith line ''#'')
                                     (split_nl (trim ''A=1''))) = [(''A'', ''1'')]"
    by code_simp
  from initialize_fallback_order [OF disjI1 [OF api_b] refl] cli_b file_b
  have "initialize world0 ?sb = Some (None, populateEnv (snd (loadBackup s2b)))
        \<and> secrets (populateEnv (snd (loadBackup s2b)))
            = parse_lines (filter (\<lambda>line. trim line \<noteq> [] \<and> \<not> startsWith line ''#'')
                                  (split_nl (trim ''A=1'')))"
    by blast
  with parse_b have b: "initialize world0 ?sb = Some (None, populateEnv (snd (loadBackup s2b)))
        \<and> secrets (populateEnv (snd (loadBackup s2b))) = [(''A'', ''1'')]"
    by simp
  have api_c: "fst (initSDK world0 state0) = Some credentials_missing" by code_simp
  have "case loadFromCLI world0 (snd (initSDK world0 state0)) of
          Some (Some cliError, s2) \<Rightarrow> True | _ \<Rightarrow> False" by code_simp
  then obtain ce_c s2c where
    cli_c: "loadFromCLI world0 (snd (initSDK world0 state0)) = Some (Some ce_c, s2c)"
    by (auto split: option.splits prod.splits)
  have file_c: "backup_file state0 = Unavailable (SystemError ''ENOENT'' ''no such file or directory'')"
    by (simp add: state0_def SecretsLoader_def process0_def no_backup_def)
  from initialize_fallback_order [OF disjI1 [OF api_c] refl] cli_c file_c
  have c: "initialize world0 state0 = Some (Some credentials_missing, s2c)"
    by blast
  from api_a cli_a a api_b cli_b b api_c cli_c c show ?thesis by blast
qed

section \<open>Precedence of the environment resolver\<close>

text \<open>
  Claim C3 (as amended). \<^verbatim>\<open>getInfisicalEnvironment\<close> always returns a non-empty name. A
  non-blank per-invocation override wins and is returned trimmed; otherwise a non-blank
  \<^verbatim>\<open>INFISICAL_ENVIRONMENT\<close> wins and is returned trimmed; otherwise \<^verbatim>\<open>NODE_ENV\<close> is
  lower-cased (not trimmed) and mapped: development and dev to development, staging to
  staging, production and prod to production, anything else to development. The result
  does not depend on the letter case of \<^verbatim>\<open>NODE_ENV\<close>.
\<close>

theorem getInfisicalEnvironment_precedence:
  "(trim (str_or_empty (cliEnvironment s)) \<noteq> [] \<longrightarrow>
      getInfisicalEnvironment s = trim (str_or_empty (cliEnvironment s)))
 \<and> (trim (str_or_empty (cliEnvironment s)) = []
      \<and> trim (str_or_empty (env s ''INFISICAL_ENVIRONMENT'')) \<noteq> [] \<longrightarrow>
      getInfisicalEnvironment s = trim (str_or_empty (env s ''INFISICAL_ENVIRONMENT'')))
 \<and> (trim (str_or_empty (cliEnvironment s)) = []
      \<and> trim (str_or_empty (env s ''INFISICAL_ENVIRONMENT'')) = [] \<longrightarrow>
      (toLowerCase (str_or_empty (env s ''NODE_ENV'')) \<in> {''development'', ''dev''} \<longrightarrow>
         getInfisicalEnvironment s = ''development'')
    \<and> (toLowerCase (str_or_empty (env s ''NODE_ENV'')) = ''staging'' \<longrightarrow>
         getInfisicalEnvironment s = ''staging'')
    \<and> (toLowerCase (str_or_empty (env s ''NODE_ENV'')) \<in> {''production'', ''prod''} \<longrightarrow>
         getInfisicalEnvironment s = ''production'')
    \<and> (toLowerCase (str_or_empty (env s ''NODE_ENV''))
          \<notin> {''development'', ''dev'', ''staging'', ''production'', ''prod''} \<longrightarrow>
         getInfisicalEnvironment s = ''development''))
 \<and> getInfisicalEnvironment (s\<lparr>env := (env s)(''NODE_ENV'' \<mapsto> toLowerCase v)\<rparr>)
     = getInfisicalEnvironment (s\<lparr>env := (env s)(''NODE_ENV'' \<mapsto> v)\<rparr>)
 \<and> getInfisicalEnvironment s \<noteq> []"
proof -
  note u = getInfisicalEnvironment_unfold
  have p1: "trim (str_or_empty (cliEnvironment s)) \<noteq> [] \<longrightarrow>
      getInfisicalEnvironment s = trim (str_or_empty (cliEnvironment s))"
    by (simp add: u)
  have p2: "trim (str_or_empty (cliEnvironment s)) = []
      \<and> trim (str_or_empty (env s ''INFISICAL_ENVIRONMENT'')) \<noteq> [] \<longrightarrow>
      getInfisicalEnvironment s = trim (str_or_empty (env s ''INFISICAL_ENVIRONMENT''))"
    by (simp add: u)
  have p3: "trim (str_or_empty (cliEnvironment s)) = []
      \<and> trim (str_or_empty (env s ''INFISICAL_ENVIRONMENT'')) = [] \<longrightarrow>
      (toLowerCase (str_or_empty (env s ''NODE_ENV'')) \<in> {''development'', ''dev''} \<longrightarrow>
         getInfisicalEnvironment s = ''development'')
    \<and> (toLowerCase (str_or_empty (env s ''NODE_ENV'')) = ''staging'' \<longrightarrow>
         getInfisicalEnvironment s = ''staging'')
    \<and> (toLowerCase (str_or_empty (env s ''NODE_ENV'')) \<in> {''production'', ''prod''} \<longrightarrow>
         getInfisicalEnvironment s = ''production'')
    \<and> (toLowerCase (str_or_empty (env s ''NODE_ENV''))
          \<notin> {''development'', ''dev'', ''staging'', ''production'', ''prod''} \<longrightarrow>
         getInfisicalEnvironment s = ''development'')"
  proof (intro impI, elim conjE)
    assume "trim (str_or_empty (cliEnvironment s)) = []"
      and "trim (str_or_empty (env s ''INFISICAL_ENVIRONMENT'')) = []"
    then have "getInfisicalEnvironment s
                 = stage_switch (toLowerCase (str_or_empty (env s ''NODE_ENV'')))"
      by (simp add: u)
    with stage_switch_cases [of "toLowerCase (str_or_empty (env s ''NODE_ENV''))"]
    show "(toLowerCase (str_or_empty (env s ''NODE_ENV'')) \<in> {''development'', ''dev''} \<longrightarrow>
         getInfisicalEnvironment s = ''development'')
    \<and> (toLowerCase (str_or_empty (env s ''NODE_ENV'')) = ''staging'' \<longrightarrow>
         getInfisicalEnvironment s = ''staging'')
    \<and> (toLowerCase (str_or_empty (env s ''NODE_ENV'')) \<in> {''production'', ''prod''} \<longrightarrow>
         getInfisicalEnvironment s = ''production'')
    \<and> (toLowerCase (str_or_empty (env s ''NODE_ENV''))
          \<notin> {''development'', ''dev'', ''staging'', ''production'', ''prod''} \<longrightarrow>
         getInfisicalEnvironment s = ''development'')"
      by (simp only:)
  qed
  have p4: "getInfisicalEnvironment (s\<lparr>env := (env s)(''NODE_ENV'' \<mapsto> toLowerCase v)\<rparr>)
     = getInfisicalEnvironment (s\<lparr>env := (env s)(''NODE_ENV'' \<mapsto> v)\<rparr>)"
    by (simp add: u str_or_empty_def toLowerCase_idem)
  have p5: "getInfisicalEnvironment s \<noteq> []"
    by (simp add: u stage_switch_nonempty)
  from p1 p2 p3 p4 p5 show ?thesis
    by (intro conjI)
qed

theorem getInfisicalEnvironment_precedence_witness:
  "trim (str_or_empty (cliEnvironment (SecretsLoader (process0\<lparr>env := [''INFISICAL_ENVIRONMENT'' \<mapsto> ''staging'']\<rparr>) ''/app'' (Some '' qa '') None))) \<noteq> []
   \<and> getInfisicalEnvironment (SecretsLoader (process0\<lparr>env := [''INFISICAL_ENVIRONMENT'' \<mapsto> ''staging'']\<rparr>) ''/app'' (Some '' qa '') None) = ''qa''
   \<and> trim (str_or_empty (cliEnvironment (state0\<lparr>env := [''INFISICAL_ENVIRONMENT'' \<mapsto> ''staging '', ''NODE_ENV'' \<mapsto> ''prod'']\<rparr>))) = []
   \<and> trim (str_or_empty (env (state0\<lparr>env := [''INFISICAL_ENVIRONMENT'' \<mapsto> ''staging '', ''NODE_ENV'' \<mapsto> ''prod'']\<rparr>) ''INFISICAL_ENVIRONMENT'')) \<noteq> []
   \<and> getInfisicalEnvironment (state0\<lparr>env := [''INFISICAL_ENVIRONMENT'' \<mapsto> ''staging '', ''NODE_ENV'' \<mapsto> ''prod'']\<rparr>) = ''staging''
   \<and> trim (str_or_empty (cliEnvironment (state0\<lparr>env := [''NODE_ENV'' \<mapsto> ''PROD'']\<rparr>))) = []
   \<and> trim (str_or_empty (env (state0\<lparr>env := [''NODE_ENV'' \<mapsto> ''PROD'']\<rparr>) ''INFISICAL_ENVIRONMENT'')) = []
   \<and> toLowerCase (str_or_empty (env (state0\<lparr>env := [''NODE_ENV'' \<mapsto> ''PROD'']\<rparr>) ''NODE_ENV'')) \<in> {''production'', ''prod''}
   \<and> getInfisicalEnvironment (state0\<lparr>env := [''NODE_ENV'' \<mapsto> ''PROD'']\<rparr>) = ''production''
   \<and> toLowerCase (str_or_empty (env (state0\<lparr>env := [''NODE_ENV'' \<mapsto> ''Dev'']\<rparr>) ''NODE_ENV'')) \<in> {''development'', ''dev''}
   \<and> getInfisicalEnvironment (state0\<lparr>env := [''NODE_ENV'' \<mapsto> ''Dev'']\<rparr>) = ''development''
   \<and> toLowerCase (str_or_empty (env (state0\<lparr>env := [''NODE_ENV'' \<mapsto> ''STAGING'']\<rparr>) ''NODE_ENV'')) = ''staging''
   \<and> getInfisicalEnvironment (state0\<lparr>env := [''NODE_ENV'' \<mapsto> ''STAGING'']\<rparr>) = ''staging''
   \<and> toLowerCase (str_or_empty (env (state0\<lparr>env := [''NODE_ENV'' \<mapsto> ''qa'']\<rparr>) ''NODE_ENV''))
        \<notin> {''development'', ''dev'', ''staging'', ''production'', ''prod''}
   \<and> getInfisicalEnvironment (state0\<lparr>env := [''NODE_ENV'' \<mapsto> ''qa'']\<rparr>) = ''development''"
proof -
  let ?a = "SecretsLoader (process0\<lparr>env := [''INFISICAL_ENVIRONMENT'' \<mapsto> ''staging'']\<rparr>) ''/app'' (Some '' qa '') None"
  let ?b = "state0\<lparr>env := [''INFISICAL_ENVIRONMENT'' \<mapsto> ''staging '', ''NODE_ENV'' \<mapsto> ''prod'']\<rparr>"
  let ?c = "state0\<lparr>env := [''NODE_ENV'' \<mapsto> ''PROD'']\<rparr>"
  let ?d = "state0\<lparr>env := [''NODE_ENV'' \<mapsto> ''Dev'']\<rparr>"
  let ?e = "state0\<lparr>env := [''NODE_ENV'' \<mapsto> ''STAGING'']\<rparr>"
  let ?f = "state0\<lparr>env := [''NODE_ENV'' \<mapsto> ''qa'']\<rparr>"
  have a1: "trim (str_or_empty (cliEnvironment ?a)) = ''qa''" by code_simp
  then have a2: "trim (str_or_empty (cliEnvironment ?a)) \<noteq> []" by simp
  from getInfisicalEnvironment_precedence [of ?a] a2 a1
  have a: "getInfisicalEnvironment ?a = ''qa''" by simp
  have b1: "trim (str_or_empty (cliEnvironment ?b)) = []" by code_simp
  have b2: "trim (str_or_empty (env ?b ''INFISICAL_ENVIRONMENT'')) = ''staging''" by code_simp
  then have b3: "trim (str_or_empty (env ?b ''INFISICAL_ENVIRONMENT'')) \<noteq> []" by simp
  from getInfisicalEnvironment_precedence [of ?b] b1 b2 b3
  have b: "getInfisicalEnvironment ?b = ''staging''" by simp
  have c1: "trim (str_or_empty (cliEnvironment ?c)) = []" by code_simp
  have c2: "trim (str_or_empty (env ?c ''INFISICAL_ENVIRONMENT'')) = []" by code_simp
  have c3: "toLowerCase (str_or_empty (env ?c ''NODE_ENV'')) = ''prod''" by code_simp
  then have c4: "toLowerCase (str_or_empty (env ?c ''NODE_ENV'')) \<in> {''production'', ''prod''}"
    by simp
  from getInfisicalEnvironment_precedence [of ?c] c1 c2 c4
  have c: "getInfisicalEnvironment ?c = ''production''" by blast
  have d1: "trim (str_or_empty (cliEnvironment ?d)) = []" by code_simp
  have d2: "trim (str_or_empty (env ?d ''INFISICAL_ENVIRONMENT'')) = []" by code_simp
  have d3: "toLowerCase (str_or_empty (env ?d ''NODE_ENV'')) = ''dev''" by code_simp
  then have d4: "toLowerCase (str_or_empty (env ?d ''NODE_ENV'')) \<in> {''development'', ''dev''}"
    by simp
  from getInfisicalEnvironment_precedence [of ?d] d1 d2 d4
  have d: "getInfisicalEnvironment ?d = ''development''" by blast
  have e1: "trim (str_or_empty (cliEnvironment ?e)) = []" by code_simp
  have e2: "trim (str_or_empty (env ?e ''INFISICAL_ENVIRONMENT'')) = []" by code_simp
  have e3: "toLowerCase (str_or_empty (env ?e ''NODE_ENV'')) = ''staging''" by code_simp
  from getInfisicalEnvironment_precedence [of ?e] e1 e2 e3
  have e: "getInfisicalEnvironment ?e = ''staging''" by blast
  have f1: "trim (str_or_empty (cliEnvironment ?f)) = []" by code_simp
  have f2: "trim (str_or_empty (env ?f ''INFISICAL_ENVIRONMENT'')) = []" by code_simp
  have f3: "toLowerCase (str_or_empty (env ?f ''NODE_ENV'')) = ''qa''" by code_simp
  then have f4: "toLowerCase (str_or_empty (env ?f ''NODE_ENV''))
        \<notin> {''development'', ''dev'', ''staging'', ''production'', ''prod''}"
    by simp
  from getInfisicalEnvironment_precedence [of ?f] f1 f2 f4
  have f: "getInfisicalEnvironment ?f = ''development''" by blast
  from a2 a b1 b3 b c1 c2 c4 c d4 d e3 e f4 f show ?thesis by blast
qed

text \<open>
  Claim C3, counterexample. The stage mapping is not trimmed: \<^verbatim>\<open>NODE_ENV\<close> set to \<^verbatim>\<open>production\<close> followed by a space
  resolves to development, although its trimmed, lower-cased value is \<^verbatim>\<open>production\<close>.
\<close>

theorem stage_mapping_not_trimmed_counterexample:
  "toLowerCase (trim ''production '') = ''production''
   \<and> getInfisicalEnvironment (state0\<lparr>env := [''NODE_ENV'' \<mapsto> ''production '']\<rparr>) = ''development''"
  by code_simp

section \<open>Polling ticks that fail\<close>

text \<open>
  Claim C7. When the re-fetch of a polling tick fails (\<^verbatim>\<open>loadSecrets\<close> throws), the tick
  leaves the whole state as it was, the secrets included; the tick itself returns
  normally, and the ticks that follow run as if the failed one had not happened.
\<close>

theorem pollTick_fetch_failure:
  assumes "fst (loadSecrets w s) = Some e"
  shows "pollTick w s = s \<and> polling (w # ws) s = polling ws s"
proof -
  obtain s' where "loadSecrets w s = (Some e, s')"
    using assms by (cases "loadSecrets w s") auto
  moreover from this have "s' = s" by (rule loadSecrets_fails_state)
  ultimately have "pollTick w s = s" by (simp add: pollTick_def)
  then show ?thesis by (simp add: polling_def)
qed

theorem pollTick_fetch_failure_witness:
  "fst (loadSecrets api_down polling_state) = Some (Error ''fetch failed'')
   \<and> pollTick api_down polling_state = polling_state
   \<and> secrets (pollTick api_down polling_state) = [(''A'', ''1'')]
   \<and> polling [api_down, world0] polling_state = polling [world0] polling_state"
proof -
  have h: "fst (loadSecrets api_down polling_state) = Some (Error ''fetch failed'')"
    by code_simp
  have s: "secrets polling_state = [(''A'', ''1'')]"
    by (simp add: polling_state_def)
  from pollTick_fetch_failure [OF h, of "[world0]"] h s show ?thesis
    by simp
qed

section \<open>Saving no secrets\<close>

text \<open>
  Claim C8. \<^verbatim>\<open>saveBackup\<close> with no secrets returns normally after one
  \<^verbatim>\<open>console.warn\<close>; it does not call \<^verbatim>\<open>fs.writeFile\<close>, so the backup file keeps its
  content whatever the file system would have done with a write.
\<close>

theorem saveBackup_empty_is_noop:
  assumes "secrets s = []"
  shows "saveBackup w s = (None, warn s ''No secrets to save to backup'')
       \<and> backup_file (snd (saveBackup w s)) = backup_file s
       \<and> console_warn (snd (saveBackup w s)) = console_warn s @ [''No secrets to save to backup'']"
  using assms by (simp add: saveBackup_def warn_def)

theorem saveBackup_empty_is_noop_witness:
  "secrets (state0\<lparr>backup_file := File ''A=1''\<rparr>) = []
   \<and> fst (saveBackup (world0\<lparr>write_fault := Some (SystemError ''EACCES'' ''permission denied'', File [])\<rparr>)
                       (state0\<lparr>backup_file := File ''A=1''\<rparr>)) = None
   \<and> backup_file (snd (saveBackup (world0\<lparr>write_fault := Some (SystemError ''EACCES'' ''permission denied'', File [])\<rparr>)
                       (state0\<lparr>backup_file := File ''A=1''\<rparr>))) = File ''A=1''
   \<and> backup_file (snd (saveBackup world0 (state0\<lparr>backup_file := File ''A=1''\<rparr>))) = File ''A=1''"
proof -
  have h: "secrets (state0\<lparr>backup_file := File ''A=1''\<rparr>) = []"
    by (simp add: state0_def SecretsLoader_def)
  show ?thesis
    using h saveBackup_empty_is_noop [OF h, of "world0\<lparr>write_fault := Some (SystemError ''EACCES'' ''permission denied'', File [])\<rparr>"]
      saveBackup_empty_is_noop [OF h, of world0]
    by (simp add: warn_def)
qed

section \<open>Pre-set environment variables\<close>

text \<open>
  A variable that is set to a non-empty value before \<^verbatim>\<open>initialize\<close> keeps that value
  through \<^verbatim>\<open>initialize\<close> and through every polling tick.
\<close>

lemma populateEnv_fold_keeps:
  "e K = Some X \<Longrightarrow> X \<noteq> [] \<Longrightarrow>
   foldl (\<lambda>e (key, value). if \<not> truthy (e key) then e(key \<mapsto> value) else e) e xs K = Some X"
proof (induction xs arbitrary: e)
  case Nil
  then show ?case by simp
next
  case (Cons x xs)
  obtain k v where x: "x = (k, v)" by (cases x)
  let ?e' = "if \<not> truthy (e k) then e(k \<mapsto> v) else e"
  have "?e' K = Some X"
    using Cons.prems by (auto simp add: truthy_def)
  from Cons.IH [of ?e', OF this Cons.prems(2)] x show ?case by simp
qed

lemma populateEnv_keeps_truthy:
  "env s K = Some X \<Longrightarrow> X \<noteq> [] \<Longrightarrow> env (populateEnv s) K = Some X"
  by (simp add: populateEnv_def populateEnv_fold_keeps)

lemma loadSecrets_env: "env (snd (loadSecrets w s)) = env s"
  by (simp add: loadSecrets_def Let_def split: sum.splits option.splits)

lemma saveBackup_env: "env (snd (saveBackup w s)) = env s"
  by (simp add: saveBackup_def writeFile_def warn_def Let_def split: option.splits prod.splits)

lemma loadBackup_env: "env (snd (loadBackup s)) = env s"
  by (simp add: loadBackup_def Let_def split: file_state.splits)

lemma sdk_tier_env: "env (snd (sdk_tier w s)) = env s"
proof -
  have a: "env (snd (initSDK w s)) = env s" using initSDK_frame [of w s] by simp
  show ?thesis
    using a loadSecrets_env [of w "snd (initSDK w s)"]
      saveBackup_env [of w "snd (loadSecrets w (snd (initSDK w s)))"]
    by (auto simp add: sdk_tier_def startPolling_def split: prod.splits option.splits)
qed

lemma initialize_keeps_truthy:
  assumes "initialize w s = Some (r, s')" and "env s K = Some X" and "X \<noteq> []"
  shows "env s' K = Some X"
proof -
  obtain r1 s1 where t: "sdk_tier w s = (r1, s1)" by (cases "sdk_tier w s") auto
  then have e1: "env s1 K = Some X" using sdk_tier_env [of w s] assms(2) by simp
  show ?thesis
  proof (cases r1)
    case None
    with t assms(1) have "s' = populateEnv s1" by (simp add: initialize_def)
    with e1 assms(3) show ?thesis by (simp add: populateEnv_keeps_truthy)
  next
    case (Some sdkError)
    show ?thesis
    proof (cases "loadFromCLI w s1")
      case None
      with t Some assms(1) show ?thesis by (simp add: initialize_def)
    next
      case (Some p)
      obtain r2 s2 where p: "p = (r2, s2)" by (cases p)
      with Some have c: "loadFromCLI w s1 = Some (r2, s2)" by simp
      then have e2: "env s2 K = Some X" using loadFromCLI_frame [OF c] e1 by simp
      show ?thesis
      proof (cases r2)
        case None
        with t \<open>r1 = Some sdkError\<close> c assms(1) have "s' = populateEnv s2"
          by (simp add: initialize_def)
        with e2 assms(3) show ?thesis by (simp add: populateEnv_keeps_truthy)
      next
        case (Some cliError)
        obtain r3 s3 where b: "loadBackup s2 = (r3, s3)" by (cases "loadBackup s2") auto
        then have e3: "env s3 K = Some X" using loadBackup_env [of s2] e2 by simp
        show ?thesis
        proof (cases r3)
          case None
          with t \<open>r1 = Some sdkError\<close> c Some b assms(1) have "s' = populateEnv s3"
            by (simp add: initialize_def)
          with e3 assms(3) show ?thesis by (simp add: populateEnv_keeps_truthy)
        next
          case (Some backupError)
          with t \<open>r1 = Some sdkError\<close> c \<open>r2 = Some cliError\<close> b assms(1) have "s' = s3"
            by (simp add: initialize_def)
          with e3 show ?thesis by simp
        qed
      qed
    qed
  qed
qed

lemma pollTick_keeps_truthy:
  assumes "env s K = Some X" and "X \<noteq> []"
  shows "env (pollTick w s) K = Some X"
proof -
  have a: "env (snd (loadSecrets w s)) K = Some X" using assms(1) by (simp add: loadSecrets_env)
  then have b: "env (snd (saveBackup w (snd (loadSecrets w s)))) K = Some X"
    by (simp add: saveBackup_env)
  show ?thesis
    using a b assms(2)
    by (auto simp add: pollTick_def populateEnv_keeps_truthy split: prod.splits option.splits)
qed

lemma polling_keeps_truthy:
  assumes "env s K = Some X" and "X \<noteq> []"
  shows "env (polling ws s) K = Some X"
proof -
  have "env (foldl (\<lambda>s' w. pollTick w s') s ws) K = Some X"
    using assms(1)
  proof (induction ws arbitrary: s)
    case Nil
    then show ?case by simp
  next
    case (Cons w ws)
    then show ?case by (simp add: pollTick_keeps_truthy assms(2))
  qed
  with assms(1) show ?thesis by (simp add: polling_def)
qed

text \<open>
  Claim C2. The guard of \<^verbatim>\<open>populateEnv\<close> is \<^verbatim>\<open>!process.env[key]\<close>, which also holds
  for a variable that is set to the empty string: with \<^verbatim>\<open>API_KEY\<close> set to the empty
  string before the start and a secret of that name, \<^verbatim>\<open>initialize\<close> replaces the value.
\<close>

theorem initialize_overwrites_empty_preset:
  "env preset_empty ''API_KEY'' = Some []
   \<and> (case initialize (cli_prints ''API_KEY=from-infisical'' 0) preset_empty of
         Some (None, s') \<Rightarrow> env s' ''API_KEY'' = Some ''from-infisical''
       | _ \<Rightarrow> False)"
  by code_simp

section \<open>Backup round trip\<close>

lemma split_nl_no_nl: "CHR 0x0A \<notin> set l \<Longrightarrow> split_nl l = [l]"
  by (induction l) auto

lemma split_nl_append:
  "CHR 0x0A \<notin> set l \<Longrightarrow> split_nl (l @ CHR 0x0A # r) = l # split_nl r"
  by (induction l) auto

lemma split_join_nl:
  "ls \<noteq> [] \<Longrightarrow> \<forall>l\<in>set ls. CHR 0x0A \<notin> set l \<Longrightarrow> split_nl (join_nl ls) = ls"
  by (induction ls rule: join_nl.induct) (simp_all add: split_nl_no_nl split_nl_append)

lemma hd_join_nl: "ls \<noteq> [] \<Longrightarrow> hd ls \<noteq> [] \<Longrightarrow> hd (join_nl ls) = hd (hd ls)"
  by (induction ls rule: join_nl.induct) simp_all

lemma join_nl_nonempty: "ls \<noteq> [] \<Longrightarrow> hd ls \<noteq> [] \<Longrightarrow> join_nl ls \<noteq> []"
  by (induction ls rule: join_nl.induct) simp_all

lemma join_nl_nonempty_last: "ls \<noteq> [] \<Longrightarrow> last ls \<noteq> [] \<Longrightarrow> join_nl ls \<noteq> []"
  by (induction ls rule: join_nl.induct) simp_all

lemma last_join_nl: "ls \<noteq> [] \<Longrightarrow> last ls \<noteq> [] \<Longrightarrow> last (join_nl ls) = last (last ls)"
proof (induction ls rule: join_nl.induct)
  case 1
  then show ?case by simp
next
  case (2 l)
  then show ?case by simp
next
  case (3 l m ls)
  then have "join_nl (m # ls) \<noteq> []"
    using join_nl_nonempty_last [of "m # ls"] by simp
  with 3 show ?case by simp
qed

lemma trim_id:
  assumes "s \<noteq> []" and "\<not> isWhiteSpace (hd s)" and "\<not> isWhiteSpace (last s)"
  shows "trim s = s"
proof -
  have a: "dropWhile isWhiteSpace s = s"
    using assms(1,2) by (simp add: dropWhile_eq_self_iff)
  have "dropWhile isWhiteSpace (rev s) = rev s"
    using assms(1,3) by (simp add: dropWhile_eq_self_iff hd_rev)
  with a show ?thesis by (simp add: trim_def)
qed

lemma trim_not_blank:
  assumes "c \<in> set l" and "\<not> isWhiteSpace c"
  shows "trim l \<noteq> []"
proof
  assume "trim l = []"
  then have "\<forall>x\<in>set (dropWhile isWhiteSpace l). isWhiteSpace x"
    by (simp add: trim_def dropWhile_eq_Nil_conv)
  moreover have "dropWhile isWhiteSpace l \<noteq> []"
    using assms by (auto simp add: dropWhile_eq_Nil_conv)
  ultimately show False
    using hd_dropWhile [of isWhiteSpace l] hd_in_set [of "dropWhile isWhiteSpace l"] by blast
qed

lemma split_trim_join_nl:
  assumes "ls \<noteq> []" and "\<forall>l\<in>set ls. CHR 0x0A \<notin> set l"
    and "hd ls \<noteq> []" and "\<not> isWhiteSpace (hd (hd ls))"
    and "last ls \<noteq> []" and "\<not> isWhiteSpace (last (last ls))"
  shows "split_nl (trim (join_nl ls)) = ls"
proof -
  have "trim (join_nl ls) = join_nl ls"
    using assms by (intro trim_id) (simp_all add: join_nl_nonempty hd_join_nl last_join_nl)
  with assms(1,2) show ?thesis by (simp add: split_join_nl)
qed

lemma obj_set_new: "k \<notin> fst ` set acc \<Longrightarrow> obj_set acc k v = acc @ [(k, v)]"
  by (induction acc) auto

lemma takeWhile_until: "c \<notin> set k \<Longrightarrow> takeWhile (\<lambda>x. x \<noteq> c) (k @ c # v) = k"
  by (induction k) auto

lemma parse_line_entry:
  assumes "k \<noteq> []" and "CHR ''='' \<notin> set k"
  shows "parse_line acc (k @ CHR ''='' # v) = obj_set acc k v"
proof -
  have "takeWhile (\<lambda>x. x \<noteq> CHR ''='') (k @ CHR ''='' # v) = k"
    using assms(2) by (simp add: takeWhile_until)
  then have "indexOf (k @ CHR ''='' # v) CHR ''='' = int (length k)"
    by (simp add: indexOf_def)
  moreover have "nat (int (length k) + 1) = Suc (length k)"
    by simp
  ultimately show ?thesis
    using assms(1) by (simp add: parse_line_def Let_def substring_def substring_from_def)
qed

lemma parse_entries:
  assumes "distinct (map fst (acc @ es))"
    and "\<forall>(k, v)\<in>set es. k \<noteq> [] \<and> CHR ''='' \<notin> set k"
  shows "foldl parse_line acc (map (\<lambda>(key, value). key @ ''='' @ value) es) = acc @ es"
  using assms
proof (induction es arbitrary: acc)
  case Nil
  then show ?case by simp
next
  case (Cons e es)
  obtain k v where e: "e = (k, v)" by (cases e)
  from Cons.prems e have k: "k \<noteq> []" "CHR ''='' \<notin> set k" "k \<notin> fst ` set acc"
    by auto
  then have step: "parse_line acc (k @ CHR ''='' # v) = acc @ [(k, v)]"
    by (simp add: parse_line_entry obj_set_new)
  have "distinct (map fst ((acc @ [(k, v)]) @ es))"
    using Cons.prems(1) e by simp
  moreover have "\<forall>(k, v)\<in>set es. k \<noteq> [] \<and> CHR ''='' \<notin> set k"
    using Cons.prems(2) by simp
  ultimately have "foldl parse_line (acc @ [(k, v)]) (map (\<lambda>(key, value). key @ ''='' @ value) es)
                   = (acc @ [(k, v)]) @ es"
    by (rule Cons.IH)
  with step e show ?case by simp
qed

lemma not_startsWith_hash: "k \<noteq> [] \<Longrightarrow> hd k \<noteq> CHR ''#'' \<Longrightarrow> \<not> startsWith (k @ r) ''#''"
  by (cases k) simp_all

lemma entry_line_kept:
  assumes "k \<noteq> []" and "hd k \<noteq> CHR ''#''"
  shows "trim (k @ CHR ''='' # v) \<noteq> [] \<and> \<not> startsWith (k @ CHR ''='' # v) ''#''"
proof -
  have "\<not> isWhiteSpace CHR ''=''" by (simp add: isWhiteSpace_def)
  then have "trim (k @ CHR ''='' # v) \<noteq> []"
    by (intro trim_not_blank [of "CHR ''=''"]) simp_all
  with assms show ?thesis by (simp add: not_startsWith_hash)
qed

lemma filter_entry_lines:
  assumes "\<forall>(k, v)\<in>set es. k \<noteq> [] \<and> hd k \<noteq> CHR ''#''"
  shows "filter (\<lambda>line. trim line \<noteq> [] \<and> \<not> startsWith line ''#'')
           (map (\<lambda>(key, value). key @ ''='' @ value) es)
         = map (\<lambda>(key, value). key @ ''='' @ value) es"
  using assms by (induction es) (auto simp add: entry_line_kept)

lemma entry_lines_kept:
  assumes "\<forall>(k, v)\<in>set es. k \<noteq> [] \<and> hd k \<noteq> CHR ''#''"
  shows "\<forall>l\<in>set (map (\<lambda>(key, value). key @ ''='' @ value) es).
           trim l \<noteq> [] \<and> \<not> startsWith l ''#''"
  using assms by (induction es) (auto simp add: entry_line_kept)

lemma loadBackup_lines:
  assumes "backup_file s = File (join_nl ls)"
    and "ls \<noteq> []" and "\<forall>l\<in>set ls. CHR 0x0A \<notin> set l"
    and "hd ls \<noteq> []" and "\<not> isWhiteSpace (hd (hd ls))"
    and "last ls \<noteq> []" and "\<not> isWhiteSpace (last (last ls))"
  shows "loadBackup s
         = (None, s\<lparr>secrets := parse_lines
                       (filter (\<lambda>line. trim line \<noteq> [] \<and> \<not> startsWith line ''#'') ls)\<rparr>)"
  using assms(1) split_trim_join_nl [OF assms(2-7)]
  by (simp add: loadBackup_def)

lemma entry_lines_shape:
  assumes "es \<noteq> []"
    and "\<forall>(k, v)\<in>set es. k \<noteq> [] \<and> CHR 0x0A \<notin> set k \<and> CHR 0x0A \<notin> set v"
    and "\<not> isWhiteSpace (hd (fst (hd es)))"
    and "snd (last es) = [] \<or> \<not> isWhiteSpace (last (snd (last es)))"
  shows "(\<forall>l\<in>set (map (\<lambda>(key, value). key @ ''='' @ value) es). CHR 0x0A \<notin> set l)
       \<and> hd (map (\<lambda>(key, value). key @ ''='' @ value) es) \<noteq> []
       \<and> \<not> isWhiteSpace (hd (hd (map (\<lambda>(key, value). key @ ''='' @ value) es)))
       \<and> last (map (\<lambda>(key, value). key @ ''='' @ value) es) \<noteq> []
       \<and> \<not> isWhiteSpace (last (last (map (\<lambda>(key, value). key @ ''='' @ value) es)))"
proof -
  have eq: "\<not> isWhiteSpace CHR ''=''" by (simp add: isWhiteSpace_def)
  have a: "\<forall>l\<in>set (map (\<lambda>(key, value). key @ ''='' @ value) es). CHR 0x0A \<notin> set l"
    using assms(2) by auto
  obtain k v where h: "hd es = (k, v)" by (cases "hd es")
  with assms(1,2) have "k \<noteq> []"
    using hd_in_set [OF assms(1)] by auto
  with h assms(1,3) have b: "hd (map (\<lambda>(key, value). key @ ''='' @ value) es) \<noteq> []"
    and c: "\<not> isWhiteSpace (hd (hd (map (\<lambda>(key, value). key @ ''='' @ value) es)))"
    by (simp_all add: hd_map)
  obtain k' v' where l: "last es = (k', v')" by (cases "last es")
  with assms(1,4) eq have d: "last (map (\<lambda>(key, value). key @ ''='' @ value) es) \<noteq> []"
    and e: "\<not> isWhiteSpace (last (last (map (\<lambda>(key, value). key @ ''='' @ value) es)))"
    by (auto simp add: last_map)
  from a b c d e show ?thesis by blast
qed

text \<open>
  Claim C4 (as amended). Let the loader hold a non-empty SecretMap with distinct keys,
  where every key is non-empty, has no \<^verbatim>\<open>=\<close> and no line feed and does not start with
  \<^verbatim>\<open>#\<close>, no value has a line feed, the first key does not start with white space and the
  last value does not end with white space. If the write succeeds, \<^verbatim>\<open>saveBackup\<close>
  writes one \<^verbatim>\<open>key=value\<close> line per entry, none of them blank or a comment, and
  \<^verbatim>\<open>loadBackup\<close> on that file yields exactly this SecretMap. It yields the same when a
  blank line or a line starting with \<^verbatim>\<open>#\<close> is put between two of the lines.
\<close>

theorem backup_round_trip:
  assumes ne: "secrets s \<noteq> []"
    and dist: "distinct (map fst (secrets s))"
    and ok: "\<forall>(k, v)\<in>set (secrets s).
               k \<noteq> [] \<and> CHR ''='' \<notin> set k \<and> CHR 0x0A \<notin> set k \<and> hd k \<noteq> CHR ''#''
               \<and> CHR 0x0A \<notin> set v"
    and first: "\<not> isWhiteSpace (hd (fst (hd (secrets s))))"
    and final: "snd (last (secrets s)) = [] \<or> \<not> isWhiteSpace (last (snd (last (secrets s))))"
    and wr: "write_fault w = None"
    and saved: "saveBackup w s = (r, s1)"
    and same_file: "backup_file s2 = backup_file s1"
  shows "r = None
       \<and> backup_file s1 = File (join_nl (map (\<lambda>(key, value). key @ ''='' @ value) (secrets s)))
       \<and> split_nl (join_nl (map (\<lambda>(key, value). key @ ''='' @ value) (secrets s)))
           = map (\<lambda>(key, value). key @ ''='' @ value) (secrets s)
       \<and> (\<forall>l\<in>set (map (\<lambda>(key, value). key @ ''='' @ value) (secrets s)).
             trim l \<noteq> [] \<and> \<not> startsWith l ''#'')
       \<and> loadBackup s2 = (None, s2\<lparr>secrets := secrets s\<rparr>)
       \<and> (\<forall>M1 M2 l s3.
             secrets s = M1 @ M2 \<and> M1 \<noteq> [] \<and> M2 \<noteq> [] \<and> CHR 0x0A \<notin> set l
             \<and> (trim l = [] \<or> startsWith l ''#'')
             \<and> backup_file s3 = File (join_nl (map (\<lambda>(key, value). key @ ''='' @ value) M1
                                                @ l # map (\<lambda>(key, value). key @ ''='' @ value) M2))
             \<longrightarrow> loadBackup s3 = (None, s3\<lparr>secrets := secrets s\<rparr>))"
proof -
  let ?line = "\<lambda>(key, value). key @ ''='' @ value"
  let ?keep = "\<lambda>line. trim line \<noteq> [] \<and> \<not> startsWith line ''#''"
  let ?M = "secrets s"
  have ok1: "\<forall>(k, v)\<in>set ?M. k \<noteq> [] \<and> CHR 0x0A \<notin> set k \<and> CHR 0x0A \<notin> set v"
    and ok2: "\<forall>(k, v)\<in>set ?M. k \<noteq> [] \<and> hd k \<noteq> CHR ''#''"
    and ok3: "\<forall>(k, v)\<in>set ?M. k \<noteq> [] \<and> CHR ''='' \<notin> set k"
    using ok by auto
  note shape = entry_lines_shape [OF ne ok1 first final]
  have lines_ne: "map ?line ?M \<noteq> []" using ne by simp
  have keep_all: "filter ?keep (map ?line ?M) = map ?line ?M"
    using ok2 by (rule filter_entry_lines)
  have parse: "parse_lines (map ?line ?M) = ?M"
    using parse_entries [of "[]" ?M] dist ok3 by (simp add: parse_lines_def)
  have p1: "r = None" and p2: "backup_file s1 = File (join_nl (map ?line ?M))"
    using saved ne wr by (auto simp add: saveBackup_def writeFile_def Let_def)
  have p3: "split_nl (join_nl (map ?line ?M)) = map ?line ?M"
    using lines_ne shape by (intro split_join_nl) blast+
  have p4: "\<forall>l\<in>set (map ?line ?M). ?keep l"
    using ok2 by (rule entry_lines_kept)
  have "loadBackup s2 = (None, s2\<lparr>secrets := parse_lines (filter ?keep (map ?line ?M))\<rparr>)"
    using same_file p2 lines_ne shape by (intro loadBackup_lines) simp_all
  with keep_all parse have p5: "loadBackup s2 = (None, s2\<lparr>secrets := ?M\<rparr>)"
    by simp
  have p6: "\<forall>M1 M2 l s3.
             ?M = M1 @ M2 \<and> M1 \<noteq> [] \<and> M2 \<noteq> [] \<and> CHR 0x0A \<notin> set l
             \<and> (trim l = [] \<or> startsWith l ''#'')
             \<and> backup_file s3 = File (join_nl (map ?line M1 @ l # map ?line M2))
             \<longrightarrow> loadBackup s3 = (None, s3\<lparr>secrets := ?M\<rparr>)"
  proof (intro allI impI, elim conjE)
    fix M1 M2 l and s3 :: state
    assume M: "?M = M1 @ M2" and M1: "M1 \<noteq> []" and M2: "M2 \<noteq> []"
      and l: "CHR 0x0A \<notin> set l" and dropped: "trim l = [] \<or> startsWith l ''#''"
      and f3: "backup_file s3 = File (join_nl (map ?line M1 @ l # map ?line M2))"
    let ?ls = "map ?line M1 @ l # map ?line M2"
    have hd_eq: "hd ?ls = hd (map ?line ?M)" using M M1 by simp
    have last_eq: "last ?ls = last (map ?line ?M)" using M M2 by simp
    have nl: "\<forall>x\<in>set ?ls. CHR 0x0A \<notin> set x"
      using shape l M by auto
    have "filter ?keep ?ls = filter ?keep (map ?line M1) @ filter ?keep (map ?line M2)"
      using dropped by auto
    also have "\<dots> = filter ?keep (map ?line ?M)" using M by simp
    finally have flt: "filter ?keep ?ls = map ?line ?M" using keep_all by simp
    have "loadBackup s3 = (None, s3\<lparr>secrets := parse_lines (filter ?keep ?ls)\<rparr>)"
      using f3 nl shape unfolding hd_eq [symmetric] last_eq [symmetric]
      by (intro loadBackup_lines) simp_all
    with flt parse show "loadBackup s3 = (None, s3\<lparr>secrets := ?M\<rparr>)" by simp
  qed
  from p1 p2 p3 p4 p5 p6 show ?thesis by (intro conjI)
qed

theorem backup_round_trip_witness:
  "secrets (state0\<lparr>secrets := sample_secrets\<rparr>) \<noteq> []
   \<and> distinct (map fst (secrets (state0\<lparr>secrets := sample_secrets\<rparr>)))
   \<and> write_fault world0 = None
   \<and> fst (saveBackup world0 (state0\<lparr>secrets := sample_secrets\<rparr>)) = None
   \<and> backup_file (snd (saveBackup world0 (state0\<lparr>secrets := sample_secrets\<rparr>)))
       = File (''A=1'' @ nl @ ''URL=http://h/?a=b&c=d'')
   \<and> loadBackup (state0\<lparr>backup_file := File (''A=1'' @ nl @ ''URL=http://h/?a=b&c=d'')\<rparr>)
       = (None, state0\<lparr>backup_file := File (''A=1'' @ nl @ ''URL=http://h/?a=b&c=d''),
                        secrets := sample_secrets\<rparr>)
   \<and> loadBackup (state0\<lparr>backup_file :=
                       File (''A=1'' @ nl @ ''# comment'' @ nl @ ''URL=http://h/?a=b&c=d'')\<rparr>)
       = (None, state0\<lparr>backup_file :=
                          File (''A=1'' @ nl @ ''# comment'' @ nl @ ''URL=http://h/?a=b&c=d''),
                        secrets := sample_secrets\<rparr>)"
proof -
  let ?s = "state0\<lparr>secrets := sample_secrets\<rparr>"
  let ?line = "\<lambda>(key, value). key @ ''='' @ value"
  let ?s2 = "state0\<lparr>backup_file := File (''A=1'' @ nl @ ''URL=http://h/?a=b&c=d'')\<rparr>"
  let ?s3 = "state0\<lparr>backup_file :=
                     File (''A=1'' @ nl @ ''# comment'' @ nl @ ''URL=http://h/?a=b&c=d'')\<rparr>"
  have ne: "secrets ?s \<noteq> []" by (simp add: sample_secrets_def)
  have dist: "distinct (map fst (secrets ?s))" by (simp add: sample_secrets_def)
  have ok: "\<forall>(k, v)\<in>set (secrets ?s).
               k \<noteq> [] \<and> CHR ''='' \<notin> set k \<and> CHR 0x0A \<notin> set k \<and> hd k \<noteq> CHR ''#''
               \<and> CHR 0x0A \<notin> set v"
    by (simp add: sample_secrets_def)
  have first: "\<not> isWhiteSpace (hd (fst (hd (secrets ?s))))"
    by (simp add: sample_secrets_def isWhiteSpace_def)
  have final: "snd (last (secrets ?s)) = [] \<or> \<not> isWhiteSpace (last (snd (last (secrets ?s))))"
    by (simp add: sample_secrets_def isWhiteSpace_def)
  have wr: "write_fault world0 = None" by (simp add: world0_def)
  have saved: "saveBackup world0 ?s = (fst (saveBackup world0 ?s), snd (saveBackup world0 ?s))"
    by simp
  have content: "join_nl (map ?line (secrets ?s)) = ''A=1'' @ nl @ ''URL=http://h/?a=b&c=d''"
    by (simp add: sample_secrets_def nl_def)
  have same: "backup_file ?s2 = File (join_nl (map ?line (secrets ?s)))"
    using content by simp
  have parts: "secrets ?s = [(''A'', ''1'')] @ [(''URL'', ''http://h/?a=b&c=d'')]"
    by (simp add: sample_secrets_def)
  have comment: "CHR 0x0A \<notin> set ''# comment'' \<and> (trim ''# comment'' = [] \<or> startsWith ''# comment'' ''#'')"
    by simp
  have f3: "backup_file ?s3 = File (join_nl (map ?line [(''A'', ''1'')] @ ''# comment''
                                            # map ?line [(''URL'', ''http://h/?a=b&c=d'')]))"
    by (simp add: nl_def)
  note t = backup_round_trip [OF ne dist ok first final wr saved]
  from t [OF refl] have a: "fst (saveBackup world0 ?s) = None"
    and b: "backup_file (snd (saveBackup world0 ?s)) = File (join_nl (map ?line (secrets ?s)))"
    by blast+
  from same b have same': "backup_file ?s2 = backup_file (snd (saveBackup world0 ?s))"
    by simp
  from t [OF same'] have c: "loadBackup ?s2 = (None, ?s2\<lparr>secrets := secrets ?s\<rparr>)"
    by blast
  from t [OF same'] parts comment f3
  have d: "loadBackup ?s3 = (None, ?s3\<lparr>secrets := secrets ?s\<rparr>)"
    by blast
  from ne dist wr a b content c d show ?thesis by simp
qed

text \<open>
  Claim C4, counterexample. The file is written without escaping and read line by line
  after trimming the whole content: a value with a line feed comes back cut at the line
  feed, a final value loses its trailing white space, an entry whose key starts with
  \<^verbatim>\<open>#\<close> is read as a comment, and an empty SecretMap is not written at all.
\<close>

theorem backup_round_trip_counterexample:
  "(case loadBackup (snd (saveBackup world0 (state0\<lparr>secrets := [(''KEY'', ''line1'' @ nl @ ''line2'')]\<rparr>))) of
      (r, s') \<Rightarrow> r = None \<and> secrets s' = [(''KEY'', ''line1'')])
   \<and> (case loadBackup (snd (saveBackup world0 (state0\<lparr>secrets := [(''KEY'', ''value '')]\<rparr>))) of
      (r, s') \<Rightarrow> r = None \<and> secrets s' = [(''KEY'', ''value'')])
   \<and> (case loadBackup (snd (saveBackup world0 (state0\<lparr>secrets := [(''#KEY'', ''value'')]\<rparr>))) of
      (r, s') \<Rightarrow> r = None \<and> secrets s' = [])
   \<and> fst (loadBackup (snd (saveBackup world0 state0))) = Some (Error ''No backup file found (.env_backup)'')"
  by code_simp

section \<open>Output of a failing subprocess\<close>

text \<open>
  On a loader that holds no secrets, \<^verbatim>\<open>loadFromCLI\<close> throws whenever the three
  invocations end in a rejection, whatever the children printed.
\<close>

lemma loadFromCLI_rejected_throws:
  assumes "secrets s = []" and "getProjectId w s = Inr i"
    and "fst (cli_exec w s (getInfisicalEnvironment s) i) = Some (Inl e)"
  shows "loadFromCLI w s = Some (Some e, snd (cli_exec w s (getInfisicalEnvironment s) i))"
proof -
  obtain s1 where c: "cli_exec w s (getInfisicalEnvironment s) i = (Some (Inl e), s1)"
    using assms(3) by (cases "cli_exec w s (getInfisicalEnvironment s) i") auto
  then have "secrets s1 = []"
    using cli_exec_frame [of w s "getInfisicalEnvironment s" i] assms(1) by simp
  with c assms(2) show ?thesis by (simp add: loadFromCLI_def Let_def)
qed

text \<open>
  Claim C5. \<^verbatim>\<open>execWithStreaming\<close> rejects on a non-zero exit code and drops the output
  collected so far, and \<^verbatim>\<open>loadFromCLI\<close> parses output only after an invocation was
  resolved. A child that prints \<^verbatim>\<open>FOO=bar\<close> and exits with code 1, at each of the three
  invocations, makes \<^verbatim>\<open>loadFromCLI\<close> throw with no secret adopted, and \<^verbatim>\<open>initialize\<close>
  fail when there is no backup.
\<close>

theorem loadFromCLI_discards_output_of_failed_child:
  "(case loadFromCLI (cli_prints ''FOO=bar'' 1) state0 of
      Some (Some e, s') \<Rightarrow> e = Error ''Command failed with exit code 1'' \<and> secrets s' = []
    | _ \<Rightarrow> False)
   \<and> (case initialize (cli_prints ''FOO=bar'' 1) state0 of
         Some (Some e, s') \<Rightarrow> e = credentials_missing
       | _ \<Rightarrow> False)"
  by code_simp

section \<open>The interactive-login phrase\<close>

lemma settle_settled: "settled st = Some r \<Longrightarrow> settle st r' = st"
  by (simp add: settle_def)

lemma on_event_settled:
  "settled st = Some r \<Longrightarrow> settled (on_event st ev) = Some r \<and> kill_sent (on_event st ev) = kill_sent st"
  by (cases ev) (simp_all add: settle_def Let_def)

lemma foldl_on_event_settled:
  "settled st = Some r \<Longrightarrow>
   settled (foldl on_event st evs) = Some r \<and> kill_sent (foldl on_event st evs) = kill_sent st"
proof (induction evs arbitrary: st)
  case Nil
  then show ?case by simp
next
  case (Cons ev evs)
  from on_event_settled [OF Cons.prems, of ev]
  have a: "settled (on_event st ev) = Some r" and b: "kill_sent (on_event st ev) = kill_sent st"
    by simp_all
  from Cons.IH [OF a] b show ?case by simp
qed

lemma login_chunk_settles:
  assumes "settled st = None" and "includes_str d login_phrase"
    and "ev = StdoutData d \<or> ev = StderrData d"
  shows "settled (on_event st ev) = Some (Inl (Error login_phrase)) \<and> kill_sent (on_event st ev)"
  using assms by (auto simp add: settle_def Let_def)

lemma exit_code_message_differs:
  "Error login_phrase \<noteq> Error (''Command failed with exit code '' @ show_nat n)"
  by (simp add: login_phrase_def)

lemma cli_exec_retries:
  assumes "settled (run_child (exec_child w (cli_command environment workspaceId))) = Some (Inl err)"
  shows "\<exists>rest. spawned (snd (cli_exec w s environment workspaceId))
           = spawned s @ [cli_command environment workspaceId, cli_retry_command environment] @ rest"
  using assms
  by (simp add: cli_exec_def execWithStreaming_def Let_def split: option.splits sum.splits)

text \<open>
  Claim C6 (as amended). When a chunk of stdout or stderr contains the login phrase and
  the promise is not settled yet, \<^verbatim>\<open>execWithStreaming\<close> rejects at that chunk, whatever
  follows, with an error whose message is the phrase (never the message of a non-zero
  exit code), and kills the child. \<^verbatim>\<open>loadFromCLI\<close> treats this rejection like any other:
  it goes on to the invocation without \<^verbatim>\<open>--projectId\<close>.
\<close>

theorem login_phrase_rejects_and_is_retried:
  assumes "settled (run_child (Child before)) = None"
    and "includes_str d login_phrase"
    and "ev = StdoutData d \<or> ev = StderrData d"
  shows "settled (run_child (Child (before @ ev # after))) = Some (Inl (Error login_phrase))
       \<and> kill_sent (run_child (Child (before @ ev # after)))
       \<and> (\<forall>n. Error login_phrase \<noteq> Error (''Command failed with exit code '' @ show_nat n))
       \<and> (exec_child w (cli_command environment workspaceId) = Child (before @ ev # after) \<longrightarrow>
            (\<exists>rest. spawned (snd (cli_exec w s environment workspaceId))
               = spawned s @ [cli_command environment workspaceId, cli_retry_command environment]
                 @ rest))"
proof -
  let ?st0 = "\<lparr>out_buf = [], err_buf = [], settled = None, kill_sent = False\<rparr>"
  let ?st1 = "foldl on_event ?st0 before"
  have "settled ?st1 = None"
    using assms(1) by (simp add: run_child_def)
  from login_chunk_settles [OF this assms(2) assms(3)]
  have a: "settled (on_event ?st1 ev) = Some (Inl (Error login_phrase))"
    and b: "kill_sent (on_event ?st1 ev)" by simp_all
  from foldl_on_event_settled [OF a, of after] b
  have c: "settled (run_child (Child (before @ ev # after))) = Some (Inl (Error login_phrase))"
    and d: "kill_sent (run_child (Child (before @ ev # after)))"
    by (simp_all add: run_child_def)
  have e: "exec_child w (cli_command environment workspaceId) = Child (before @ ev # after) \<longrightarrow>
            (\<exists>rest. spawned (snd (cli_exec w s environment workspaceId))
               = spawned s @ [cli_command environment workspaceId, cli_retry_command environment]
                 @ rest)"
    using c cli_exec_retries [of w environment workspaceId "Error login_phrase" s] by simp
  from c d e exit_code_message_differs show ?thesis by blast
qed

theorem login_phrase_rejects_and_is_retried_witness:
  "settled (run_child (Child [StderrData ''warning: update available''])) = None
   \<and> includes_str (''error: '' @ login_phrase) login_phrase
   \<and> exec_child login_world (cli_command ''development'' ''ws-1'')
       = Child ([StderrData ''warning: update available'']
                @ StdoutData (''error: '' @ login_phrase) # [StdoutData ''FOO=bar'', Close (Some 0)])
   \<and> settled (run_child (Child ([StderrData ''warning: update available'']
                 @ StdoutData (''error: '' @ login_phrase) # [StdoutData ''FOO=bar'', Close (Some 0)])))
       = Some (Inl (Error login_phrase))
   \<and> kill_sent (run_child (Child ([StderrData ''warning: update available'']
                 @ StdoutData (''error: '' @ login_phrase) # [StdoutData ''FOO=bar'', Close (Some 0)])))
   \<and> (\<exists>rest. spawned (snd (cli_exec login_world state0 ''development'' ''ws-1''))
          = spawned state0 @ [cli_command ''development'' ''ws-1'', cli_retry_command ''development'']
            @ rest)"
proof -
  have h1: "settled (run_child (Child [StderrData ''warning: update available''])) = None"
    by code_simp
  have h2: "includes_str (''error: '' @ login_phrase) login_phrase"
    by code_simp
  have h3: "exec_child login_world (cli_command ''development'' ''ws-1'')
       = Child ([StderrData ''warning: update available'']
                @ StdoutData (''error: '' @ login_phrase) # [StdoutData ''FOO=bar'', Close (Some 0)])"
    by (simp add: login_world_def)
  from login_phrase_rejects_and_is_retried [OF h1 h2 disjI1 [OF refl],
      of "[StdoutData ''FOO=bar'', Close (Some 0)]" login_world "''development''" "''ws-1''" state0]
    h1 h2 h3
  show ?thesis by blast
qed

text \<open>
  Claim C6, counterexample. With a child that prints the login phrase at every
  invocation, \<^verbatim>\<open>loadFromCLI\<close> runs all three invocations before it throws.
\<close>

theorem login_phrase_is_retried_counterexample:
  "(case loadFromCLI (cli_prints login_phrase 0) state0 of
      Some (r, s') \<Rightarrow>
        r = Some (Error login_phrase)
        \<and> spawned s' = [cli_command ''development'' ''ws-1'', cli_retry_command ''development'',
                         cli_debug_command ''development'']
    | None \<Rightarrow> False)"
  by code_simp

text \<open>
  The phrase is looked for in each chunk by itself; when it arrives split over two
  chunks, the invocation is resolved as if nothing had been said.
\<close>

lemma login_phrase_split_across_chunks:
  "includes_str (''No valid login session found, '' @ ''triggering login flow'') login_phrase
   \<and> settled (run_child (Child [StdoutData ''No valid login session found, '',
                                 StdoutData ''triggering login flow'', Close (Some 0)]))
      = Some (Inr \<lparr>stdout = login_phrase, stderr = []\<rparr>)"
  by code_simp

section \<open>Options of the \<^verbatim>\<open>run\<close> command\<close>

lemma run_loader_fields:
  "cliEnvironment (run_loader dotenv_config cwd opts p) = opt_path opts
   \<and> cliSlug (run_loader dotenv_config cwd opts p) = None
   \<and> projectRoot (run_loader dotenv_config cwd opts p) = cwd"
  by (simp add: run_loader_def SecretsLoader_def Let_def)

text \<open>
  Claim C9. The \<^verbatim>\<open>run\<close> action calls \<^verbatim>\<open>new SecretsLoader(process.cwd(), path)\<close>: the
  value of \<^verbatim>\<open>--path\<close> lands in the constructor's \<^verbatim>\<open>environment\<close> parameter, no slug is
  passed, and the value of \<^verbatim>\<open>--env\<close> only sets \<^verbatim>\<open>NODE_ENV\<close>. With
  \<^verbatim>\<open>--env staging --path /backend\<close> the resolved environment is \<^verbatim>\<open>/backend\<close>; with
  \<^verbatim>\<open>--env qa\<close> alone it is \<^verbatim>\<open>development\<close>.
\<close>

theorem run_loader_passes_path_as_environment:
  "cliEnvironment (run_loader (\<lambda>p. p) ''/app'' \<lparr>opt_env = Some ''staging'', opt_path = Some ''/backend''\<rparr> process0)
     = Some ''/backend''
   \<and> cliSlug (run_loader (\<lambda>p. p) ''/app'' \<lparr>opt_env = Some ''staging'', opt_path = Some ''/backend''\<rparr> process0)
     = None
   \<and> getInfisicalEnvironment
        (run_loader (\<lambda>p. p) ''/app'' \<lparr>opt_env = Some ''staging'', opt_path = Some ''/backend''\<rparr> process0)
     = ''/backend''
   \<and> getInfisicalEnvironment
        (run_loader (\<lambda>p. p) ''/app'' \<lparr>opt_env = Some ''qa'', opt_path = None\<rparr> process0)
     = ''development''"
  by code_simp

section \<open>The copy returned by \<^verbatim>\<open>getSecrets\<close>\<close>

lemma mutate_other:
  "r' \<noteq> r \<Longrightarrow> objects (mutate r h m) r' = objects h r' \<and> fresh (mutate r h m) = fresh h"
  by (cases m) simp_all

lemma mutations_other:
  "r' \<noteq> r \<Longrightarrow> objects (foldl (mutate r) h ms) r' = objects h r'"
proof (induction ms arbitrary: h)
  case Nil
  then show ?case by simp
next
  case (Cons m ms)
  from Cons.IH [OF Cons.prems, of "mutate r h m"] mutate_other [OF Cons.prems, of h m]
  show ?case by simp
qed

text \<open>
  Claim C10. \<^verbatim>\<open>getSecrets\<close> returns a new object with the entries of the loader's
  secrets. Whatever the caller then assigns to or deletes from that object, the loader's
  own object keeps its entries, a later \<^verbatim>\<open>getSecrets\<close> returns these entries again,
  and \<^verbatim>\<open>populateEnv\<close> publishes the same environment.
\<close>

theorem getSecrets_returns_fresh_copy:
  assumes "this_secrets < fresh h"
    and "getSecrets h this_secrets = (r, h1)"
    and "h2 = foldl (mutate r) h1 ms"
  shows "r \<noteq> this_secrets
       \<and> deref h1 r = deref h this_secrets
       \<and> deref h1 this_secrets = deref h this_secrets
       \<and> deref h2 this_secrets = deref h this_secrets
       \<and> deref (snd (getSecrets h2 this_secrets)) (fst (getSecrets h2 this_secrets))
           = deref h this_secrets
       \<and> populateEnv (loader_view s h2 this_secrets) = populateEnv (loader_view s h this_secrets)"
proof -
  from assms(2) have r: "r = fresh h"
    and h1: "h1 = h\<lparr>objects := (objects h)(fresh h \<mapsto> deref h this_secrets), fresh := Suc (fresh h)\<rparr>"
    by (auto simp add: getSecrets_def alloc_def)
  from r assms(1) have ne: "r \<noteq> this_secrets" by simp
  have a: "deref h1 r = deref h this_secrets"
    using r h1 by (simp add: deref_def)
  have b: "deref h1 this_secrets = deref h this_secrets"
    using r h1 ne by (simp add: deref_def)
  have "objects h2 this_secrets = objects h1 this_secrets"
    using assms(3) mutations_other [of this_secrets r h1 ms] ne by simp
  then have c: "deref h2 this_secrets = deref h this_secrets"
    using b by (simp add: deref_def)
  have d: "deref (snd (getSecrets h2 this_secrets)) (fst (getSecrets h2 this_secrets))
           = deref h this_secrets"
    using c by (simp add: getSecrets_def alloc_def deref_def)
  have e: "populateEnv (loader_view s h2 this_secrets) = populateEnv (loader_view s h this_secrets)"
    using c by (simp add: loader_view_def)
  from ne a b c d e show ?thesis by blast
qed

theorem getSecrets_returns_fresh_copy_witness:
  "(0::nat) < fresh store0
   \<and> getSecrets store0 0 = (1, snd (getSecrets store0 0))
   \<and> deref (snd (getSecrets store0 0)) 1 = [(''A'', ''1'')]
   \<and> deref (foldl (mutate 1) (snd (getSecrets store0 0)) [SetProp ''A'' ''changed'', SetProp ''B'' ''2'', DeleteProp ''A'']) 1
       = [(''B'', ''2'')]
   \<and> deref (foldl (mutate 1) (snd (getSecrets store0 0)) [SetProp ''A'' ''changed'', SetProp ''B'' ''2'', DeleteProp ''A'']) 0
       = [(''A'', ''1'')]"
proof -
  have h1: "(0::nat) < fresh store0" by (simp add: store0_def)
  have h2: "getSecrets store0 0 = (1, snd (getSecrets store0 0))"
    by (simp add: getSecrets_def alloc_def store0_def)
  have v0: "deref store0 0 = [(''A'', ''1'')]" by (simp add: deref_def store0_def)
  have v1: "deref (foldl (mutate 1) (snd (getSecrets store0 0)) [SetProp ''A'' ''changed'', SetProp ''B'' ''2'', DeleteProp ''A'']) 1
       = [(''B'', ''2'')]"
    by (simp add: getSecrets_def alloc_def store0_def deref_def)
  note t = getSecrets_returns_fresh_copy [OF h1 h2 refl,
      where ms = "[SetProp ''A'' ''changed'', SetProp ''B'' ''2'', DeleteProp ''A'']"]
  from t have "deref (snd (getSecrets store0 0)) 1 = deref store0 0"
    by blast
  with v0 have w1: "deref (snd (getSecrets store0 0)) 1 = [(''A'', ''1'')]"
    by (simp only:)
  from t have "deref (foldl (mutate 1) (snd (getSecrets store0 0)) [SetProp ''A'' ''changed'', SetProp ''B'' ''2'', DeleteProp ''A'']) 0
       = deref store0 0"
    by blast
  with v0 have w0: "deref (foldl (mutate 1) (snd (getSecrets store0 0)) [SetProp ''A'' ''changed'', SetProp ''B'' ''2'', DeleteProp ''A'']) 0
       = [(''A'', ''1'')]"
    by (simp only:)
  from h1 h2 w1 v1 w0 show ?thesis by blast
qed

end
